theory Spec2Isabelle
  imports Main "HOL-Library.Word"
begin

section \<open>Python strings and small library functions\<close>

text \<open>
  A Python \<open>str\<close> is modelled as a \<open>string\<close>, each \<open>char\<close> standing for one code point
  in the range 0..255.  The functions of this section are the parts of Python's built-in
  library that the uploader calls with fixed arguments.
\<close>

definition newline :: char where
  "newline = CHR 0x0A"

definition backslash :: char where
  "backslash = CHR 0x5C"

text \<open>
  The character class \<open>[A-Za-z0-9_]\<close> of the regular expression in \<open>_post_data\<close>:
  the ranges are literal code point ranges, so only ASCII characters belong to it.
\<close>

definition word_char :: "char \<Rightarrow> bool" where
  "word_char c =
     (let n = (of_char c :: nat)
      in (65 \<le> n \<and> n \<le> 90) \<or> (97 \<le> n \<and> n \<le> 122) \<or> (48 \<le> n \<and> n \<le> 57) \<or> n = 95)"

text \<open>
  \<open>re.sub("[^A-Za-z0-9_]+", "", s)\<close>: scanning from the left, every maximal run of
  characters outside the class is one match and is replaced by the empty string.
\<close>

function re_sub_nonword :: "string \<Rightarrow> string" where
  "re_sub_nonword [] = []"
| "re_sub_nonword (c # cs) =
     (if word_char c then c # re_sub_nonword cs
      else re_sub_nonword (dropWhile (\<lambda>x. \<not> word_char x) cs))"
  by pat_completeness auto
termination
  by (relation "measure length") (auto simp: length_dropWhile_le less_Suc_eq_le)

text \<open>
  \<open>s.split(sep)\<close> for a one-character separator: the pieces between the occurrences of
  the separator, in order; the result is never empty.
\<close>

fun py_split :: "char \<Rightarrow> string \<Rightarrow> string list" where
  "py_split sep [] = [[]]"
| "py_split sep (c # cs) =
     (if c = sep then [] # py_split sep cs
      else (case py_split sep cs of
              [] \<Rightarrow> [[c]]
            | w # ws \<Rightarrow> (c # w) # ws))"

text \<open>\<open>sep.join(xs)\<close>.\<close>

fun join :: "string \<Rightarrow> string list \<Rightarrow> string" where
  "join sep [] = []"
| "join sep [x] = x"
| "join sep (x # y # ys) = x @ sep @ join sep (y # ys)"

text \<open>\<open>str(n)\<close> for an integer: its decimal digits, with a minus sign when negative.\<close>

definition digit_char :: "nat \<Rightarrow> char" where
  "digit_char d = char_of (48 + d)"

fun str_nat :: "nat \<Rightarrow> string" where
  "str_nat n = (if n < 10 then [digit_char n] else str_nat (n div 10) @ [digit_char (n mod 10)])"

declare str_nat.simps [simp del]

definition str_int :: "int \<Rightarrow> string" where
  "str_int i = (if i < 0 then CHR ''-'' # str_nat (nat (- i)) else str_nat (nat i))"

text \<open>The number that a string of decimal digits denotes, to state what \<open>str\<close> returns.\<close>

definition decimal_value :: "string \<Rightarrow> nat" where
  "decimal_value s = foldl (\<lambda>a c. 10 * a + (of_char c - 48)) 0 s"

text \<open>\<open>bytes(s, encoding="utf-8")\<close> on code points below 256.\<close>

type_synonym byte = "8 word"

definition utf8_char :: "char \<Rightarrow> byte list" where
  "utf8_char c =
     (let n = (of_char c :: nat)
      in if n < 128 then [of_nat n] else [of_nat (192 + n div 64), of_nat (128 + n mod 64)])"

definition utf8_encode :: "string \<Rightarrow> byte list" where
  "utf8_encode s = concat (map utf8_char s)"

subsection \<open>\<open>json.dumps\<close> of a list of string dictionaries\<close>

text \<open>
  \<open>upload_df\<close> turns each row of the frame into \<open>row[1].astype(str).to_dict()\<close>, a
  dictionary from column name to the text of the cell.  A row is modelled as that dictionary,
  in column order, and a frame as the list of its rows.

  \<open>json.dumps\<close> is called with its defaults: item separator \<open>", "\<close>, key separator
  \<open>": "\<close> and \<open>ensure_ascii\<close>, so a character outside the printable ASCII range, a
  double quote and a backslash are written as escapes and the output is ASCII.
\<close>

type_synonym row = "(string \<times> string) list"

definition dquote :: char where
  "dquote = CHR 0x22"

definition hex_char :: "nat \<Rightarrow> char" where
  "hex_char d = (if d < 10 then char_of (48 + d) else char_of (87 + d))"

definition json_escape_char :: "char \<Rightarrow> string" where
  "json_escape_char c =
     (let n = (of_char c :: nat)
      in if c = dquote then [backslash, dquote]
         else if c = backslash then [backslash, backslash]
         else if n = 10 then [backslash, CHR ''n'']
         else if n = 13 then [backslash, CHR ''r'']
         else if n = 9 then [backslash, CHR ''t'']
         else if n = 12 then [backslash, CHR ''f'']
         else if n = 8 then [backslash, CHR ''b'']
         else if 32 \<le> n \<and> n \<le> 126 then [c]
         else [backslash, CHR ''u'', CHR ''0'', CHR ''0'', hex_char (n div 16), hex_char (n mod 16)])"

definition json_str :: "string \<Rightarrow> string" where
  "json_str s = dquote # concat (map json_escape_char s) @ [dquote]"

definition json_dict :: "row \<Rightarrow> string" where
  "json_dict r = ''{'' @ join '', '' (map (\<lambda>(k, v). json_str k @ '': '' @ json_str v) r) @ ''}''"

definition json_dumps :: "row list \<Rightarrow> string" where
  "json_dumps events = ''['' @ join '', '' (map json_dict events) @ '']''"

section \<open>The Log Analytics uploader\<close>

subsection \<open>Exceptions, the environment and the observable effects\<close>

datatype pyexn =
    MsticpyConnectionError (message: string) (title: string)
  | BinasciiError
  | TypeError
  | ValueError
  | KeyError string
  | OSError string

text \<open>The class of an exception object, as \<open>type(e).__name__\<close>.\<close>

fun exn_class :: "pyexn \<Rightarrow> string" where
  "exn_class (MsticpyConnectionError m t) = ''MsticpyConnectionError''"
| "exn_class BinasciiError = ''binascii.Error''"
| "exn_class TypeError = ''TypeError''"
| "exn_class ValueError = ''ValueError''"
| "exn_class (KeyError k) = ''KeyError''"
| "exn_class (OSError m) = ''OSError''"

text \<open>What \<open>requests.post\<close> does: it raises \<open>requests.ConnectionError\<close> or returns a
  response with a status code.\<close>

datatype outcome = ConnectionError | Response (status_code: int)

record request =
  req_uri :: string
  req_data :: string
  req_headers :: "(string \<times> string) list"

text \<open>
  The library functions and the outside world the uploader depends on.  The \<open>n\<close>-th call
  of \<open>requests.post\<close> (counting from 0) is answered by \<open>respond n\<close> and stamped with
  the clock reading \<open>utcnow n\<close>, already formatted.  \<open>b64decode\<close> is \<open>None\<close> where
  \<open>base64.b64decode\<close> raises \<open>binascii.Error\<close>.  \<open>getsizeof_overhead\<close> is the fixed
  part of \<open>sys.getsizeof\<close> of an ASCII \<open>str\<close>, whose size is that plus one byte for each
  character.  \<open>str_Path p\<close> is \<open>str(Path(p))\<close>, \<open>listdir d\<close> the names of the entries
  of directory \<open>d\<close> in the order the file system yields them, \<open>joinpath d n\<close> is
  \<open>str(Path(d) / n)\<close>, and \<open>read_csv p delim\<close> is the frame \<open>pd.read_csv\<close> reads, or the
  exception it raises.
\<close>

record env =
  b64decode :: "string \<Rightarrow> byte list option"
  b64encode :: "byte list \<Rightarrow> string"
  hmac_sha256 :: "byte list \<Rightarrow> byte list \<Rightarrow> byte list"
  getsizeof_overhead :: nat
  utcnow :: "nat \<Rightarrow> string"
  respond :: "nat \<Rightarrow> outcome"
  str_Path :: "string \<Rightarrow> string"
  listdir :: "string \<Rightarrow> string list"
  joinpath :: "string \<Rightarrow> string \<Rightarrow> string"
  read_csv :: "string \<Rightarrow> string \<Rightarrow> pyexn + row list"

text \<open>The effects of a run: the requests handed to \<open>requests.post\<close>, the lines printed,
  and the count of the progress bar.\<close>

record io =
  requests :: "request list"
  stdout :: "string list"
  progress :: nat

record la_uploader =
  workspace :: string
  workspace_secret :: string
  debug :: bool
  ops_loc :: string

definition getsizeof :: "env \<Rightarrow> string \<Rightarrow> nat" where
  "getsizeof e s = getsizeof_overhead e + length s"

subsection \<open>\<open>_build_signature\<close>\<close>

definition build_signature ::
  "env \<Rightarrow> la_uploader \<Rightarrow> string \<Rightarrow> int \<Rightarrow> string \<Rightarrow> string \<Rightarrow> string \<Rightarrow> pyexn + string" where
  "build_signature e self date content_length method content_type resource =
     (let x_headers = ''x-ms-date:'' @ date;
          string_to_hash =
            method @ [newline] @ str_int content_length @ [newline] @ content_type
              @ [newline] @ x_headers @ [newline] @ resource;
          bytes_to_hash = utf8_encode string_to_hash
      in case b64decode e (workspace_secret self) of
           None \<Rightarrow> Inl BinasciiError
         | Some decoded_key \<Rightarrow>
             (let encoded_hash = b64encode e (hmac_sha256 e decoded_key bytes_to_hash);
                  authorization = ''SharedKey '' @ workspace self @ '':'' @ encoded_hash
              in Inr authorization))"

subsection \<open>\<open>_post_data\<close>\<close>

definition connect_error :: pyexn where
  "connect_error =
     MsticpyConnectionError
       ''Unable to connect to workspace, ensure your Workspace ID is correct.''
       ''Unable to connect to Workspace''"

definition upload_failed :: "int \<Rightarrow> pyexn" where
  "upload_failed code =
     MsticpyConnectionError
       (''LogAnalytics data upload failed with code '' @ str_int code @ ''.'' @ [newline]
          @ replicate 16 CHR '' '' @ ''Check Workspace ID and key'')
       ''Data Upload Failed''"

definition post_data ::
  "env \<Rightarrow> la_uploader \<Rightarrow> string \<Rightarrow> string \<Rightarrow> io \<Rightarrow> (pyexn + unit) \<times> io" where
  "post_data e self body table_name s =
     (let table_name = re_sub_nonword table_name;
          resource = ''/api/logs'';
          content_type = ''application/json'';
          rfc1123date = utcnow e (length (requests s));
          content_length = int (length body)
      in case build_signature e self rfc1123date content_length ''POST'' content_type resource of
           Inl err \<Rightarrow> (Inl err, s)
         | Inr signature \<Rightarrow>
             (let uri = ''https://'' @ workspace self @ ops_loc self @ resource
                          @ ''?api-version=2016-04-01'';
                  headers = [(''content-type'', content_type), (''Authorization'', signature),
                             (''Log-Type'', table_name), (''x-ms-date'', rfc1123date)];
                  s1 = s\<lparr>requests := requests s @ [\<lparr>req_uri = uri, req_data = body, req_headers = headers\<rparr>]\<rparr>
              in case respond e (length (requests s)) of
                   ConnectionError \<Rightarrow> (Inl connect_error, s1)
                 | Response code \<Rightarrow>
                     (let s2 = (if debug self
                                then s1\<lparr>stdout := stdout s1 @ [''Upload response code: '' @ str_int code]\<rparr>
                                else s1)
                      in if code < 200 \<or> code > 299 then (Inl (upload_failed code), s2)
                         else (Inr (), s2))))"

subsection \<open>\<open>upload_df\<close>\<close>

text \<open>
  The loop over the rows, with the batch accumulated so far: it returns the residual batch,
  or the exception of the first failed post.
\<close>

fun upload_rows ::
  "env \<Rightarrow> la_uploader \<Rightarrow> string \<Rightarrow> row list \<Rightarrow> row list \<Rightarrow> io \<Rightarrow> (pyexn + row list) \<times> io" where
  "upload_rows e self table_name events [] s = (Inr events, s)"
| "upload_rows e self table_name events (r # rs) s =
     (let events = events @ [r]
      in if getsizeof e (json_dumps events) > 26214400
         then (let s1 = (if debug self
                         then s\<lparr>stdout := stdout s @ [''Data larger than 25MB spliting data requests.'']\<rparr>
                         else s);
                   body = json_dumps events
               in case post_data e self body table_name s1 of
                    (Inl err, s2) \<Rightarrow> (Inl err, s2)
                  | (Inr u, s2) \<Rightarrow> upload_rows e self table_name [] rs s2)
         else upload_rows e self table_name events rs s)"

definition upload_df ::
  "env \<Rightarrow> la_uploader \<Rightarrow> row list \<Rightarrow> string \<Rightarrow> io \<Rightarrow> (pyexn + unit) \<times> io" where
  "upload_df e self rows table_name s =
     (case upload_rows e self table_name [] rows s of
        (Inl err, s1) \<Rightarrow> (Inl err, s1)
      | (Inr events, s1) \<Rightarrow>
          (case (if events \<noteq> [] then post_data e self (json_dumps events) table_name s1
                 else (Inr (), s1)) of
             (Inl err, s2) \<Rightarrow> (Inl err, s2)
           | (Inr u, s2) \<Rightarrow>
               (Inr (), if debug self
                        then s2\<lparr>stdout := stdout s2 @ [''Upload to '' @ table_name @ '' complete'']\<rparr>
                        else s2)))"

subsection \<open>\<open>upload_file\<close> and \<open>upload_folder\<close>\<close>

text \<open>\<open>str(path).split("\\")[-1].split(".")[0]\<close>; a split is never empty, so both
  indexings succeed.\<close>

definition table_name_of_path :: "string \<Rightarrow> string" where
  "table_name_of_path p = hd (py_split CHR ''.'' (last (py_split backslash p)))"

text \<open>\<open>bool(table_name)\<close>: \<open>None\<close> and the empty string are false.  Where the
  name is used as a string it is not \<open>None\<close>.\<close>

fun name_of :: "string option \<Rightarrow> string" where
  "name_of None = []"
| "name_of (Some n) = n"

fun bool_name :: "string option \<Rightarrow> bool" where
  "bool_name None = False"
| "bool_name (Some n) = (n \<noteq> [])"

definition upload_file ::
  "env \<Rightarrow> la_uploader \<Rightarrow> string \<Rightarrow> string option \<Rightarrow> string \<Rightarrow> io \<Rightarrow> (pyexn + unit) \<times> io" where
  "upload_file e self file_path table_name delim s =
     (let path = str_Path e file_path
      in case read_csv e path delim of
           Inl err \<Rightarrow> (Inl err, s)
         | Inr data \<Rightarrow>
             (let table_name = (if \<not> bool_name table_name then table_name_of_path path
                                else name_of table_name)
              in upload_df e self data table_name s))"

text \<open>
  Matching a file name against a glob pattern made of literal characters and \<open>*\<close>, which
  stands for any run of characters.
\<close>

fun fnmatch :: "string \<Rightarrow> string \<Rightarrow> bool" where
  "fnmatch [] n = (n = [])"
| "fnmatch (p # ps) [] = (p = CHR ''*'' \<and> fnmatch ps [])"
| "fnmatch (p # ps) (c # cs) =
     (if p = CHR ''*'' then fnmatch ps (c # cs) \<or> fnmatch (p # ps) cs
      else p = c \<and> fnmatch ps cs)"

definition glob :: "env \<Rightarrow> string \<Rightarrow> string \<Rightarrow> string list" where
  "glob e folder_path ext =
     map (joinpath e folder_path) (filter (fnmatch ext) (listdir e folder_path))"

fun upload_paths ::
  "env \<Rightarrow> la_uploader \<Rightarrow> bool \<Rightarrow> string option \<Rightarrow> string \<Rightarrow> string list \<Rightarrow> io
     \<Rightarrow> (pyexn + unit) \<times> io" where
  "upload_paths e self t_name table_name delim [] s = (Inr (), s)"
| "upload_paths e self t_name table_name delim (path # paths) s =
     (case read_csv e path delim of
        Inl err \<Rightarrow> (Inl err, s)
      | Inr data \<Rightarrow>
          (let table_name = (if t_name = False then table_name_of_path path
                             else name_of table_name)
           in case upload_df e self data table_name s of
                (Inl err, s1) \<Rightarrow> (Inl err, s1)
              | (Inr u, s1) \<Rightarrow>
                  upload_paths e self t_name (Some table_name) delim paths
                    (s1\<lparr>progress := progress s1 + 1\<rparr>)))"

definition upload_folder ::
  "env \<Rightarrow> la_uploader \<Rightarrow> string \<Rightarrow> string option \<Rightarrow> string \<Rightarrow> io \<Rightarrow> (pyexn + unit) \<times> io" where
  "upload_folder e self folder_path table_name delim s =
     (let ext = (if delim \<noteq> '','' then ''*'' else ''*.csv'');
          t_name = bool_name table_name;
          input_files = glob e folder_path ext
      in upload_paths e self t_name table_name delim input_files (s\<lparr>progress := 0\<rparr>))"

subsection \<open>The batches a frame is split into\<close>

text \<open>
  The size test of the loop, and the batches the loop of \<open>upload_df\<close> hands over when
  every post succeeds: the ones flushed on overflow, then the residual one if it is not
  empty.  They are related to \<open>upload_df\<close> itself by the theorems below.
\<close>

definition over_ceiling :: "env \<Rightarrow> row list \<Rightarrow> bool" where
  "over_ceiling e events = (getsizeof e (json_dumps events) > 26214400)"

fun batches :: "env \<Rightarrow> row list \<Rightarrow> row list \<Rightarrow> row list list" where
  "batches e events [] = (if events \<noteq> [] then [events] else [])"
| "batches e events (r # rs) =
     (if over_ceiling e (events @ [r]) then (events @ [r]) # batches e [] rs
      else batches e (events @ [r]) rs)"

text \<open>A post is accepted when a response arrives and its status is in 200..299.\<close>

fun accepted :: "outcome \<Rightarrow> bool" where
  "accepted ConnectionError = False"
| "accepted (Response code) = (200 \<le> code \<and> code \<le> 299)"

text \<open>The value of a header of a request.\<close>

definition header :: "string \<Rightarrow> request \<Rightarrow> string option" where
  "header k rq = map_of (req_headers rq) k"

section \<open>The IntSights provider\<close>

text \<open>
  A response is a dictionary of JSON values.  Numbers are integers here; the parser only
  passes them on.
\<close>

datatype json =
    JNull
  | JBool bool
  | JInt int
  | JStr string
  | JList "json list"
  | JDict "(string \<times> json) list"

type_synonym pydict = "(string \<times> json) list"

text \<open>Modelled from the spec: the enumeration \<open>ResultSeverity\<close> of \<open>result_severity.py\<close>,
  with the four levels the spec names.\<close>

datatype ResultSeverity = information | warning | high | unknown

text \<open>\<open>d[k]\<close> and \<open>d.get(k, default)\<close>.\<close>

definition getitem :: "pydict \<Rightarrow> string \<Rightarrow> pyexn + json" where
  "getitem d k = (case map_of d k of None \<Rightarrow> Inl (KeyError k) | Some v \<Rightarrow> Inr v)"

definition dict_get :: "pydict \<Rightarrow> string \<Rightarrow> json \<Rightarrow> json" where
  "dict_get d k dflt = (case map_of d k of None \<Rightarrow> dflt | Some v \<Rightarrow> v)"

text \<open>Truth value of a JSON value in a condition.\<close>

fun truthy :: "json \<Rightarrow> bool" where
  "truthy JNull = False"
| "truthy (JBool b) = b"
| "truthy (JInt i) = (i \<noteq> 0)"
| "truthy (JStr s) = (s \<noteq> [])"
| "truthy (JList xs) = (xs \<noteq> [])"
| "truthy (JDict d) = (d \<noteq> [])"

text \<open>\<open>a + b\<close>: lists and strings concatenate, integers and booleans add, anything else
  raises \<open>TypeError\<close>.\<close>

fun py_add :: "json \<Rightarrow> json \<Rightarrow> pyexn + json" where
  "py_add (JList a) (JList b) = Inr (JList (a @ b))"
| "py_add (JStr a) (JStr b) = Inr (JStr (a @ b))"
| "py_add (JInt a) (JInt b) = Inr (JInt (a + b))"
| "py_add (JInt a) (JBool b) = Inr (JInt (a + (if b then 1 else 0)))"
| "py_add (JBool a) (JInt b) = Inr (JInt ((if a then 1 else 0) + b))"
| "py_add (JBool a) (JBool b) = Inr (JInt ((if a then 1 else 0) + (if b then 1 else 0)))"
| "py_add a b = Inl TypeError"

text \<open>
  \<open>dt.datetime.strptime(v, "%Y-%m-%dT%H:%M:%S.%fZ")\<close>: \<open>TypeError\<close> when \<open>v\<close> is not a
  string, \<open>ValueError\<close> when the string does not match the format.  The parser of the
  format itself is a parameter: \<open>None\<close> where the string does not match.
\<close>

fun py_strptime :: "(string \<Rightarrow> 't option) \<Rightarrow> json \<Rightarrow> pyexn + 't" where
  "py_strptime strptime (JStr s) = (case strptime s of None \<Rightarrow> Inl ValueError | Some t \<Rightarrow> Inr t)"
| "py_strptime strptime v = Inl TypeError"

record 't result_dict =
  threat_actors :: json
  geolocation :: json
  response_code :: json
  tags :: json
  malware :: json
  campaigns :: json
  score :: json
  first_seen :: 't
  last_seen :: 't
  last_update :: 't

datatype 't details = Text string | Details "'t result_dict"

text \<open>
  \<open>parse_results\<close>.  \<open>_failed_response\<close> is inherited from the HTTP provider base class
  and is a parameter here.  The entries of the result dictionary are evaluated in the order
  they are written, so the first one that raises decides the exception.
\<close>

definition parse_results ::
  "(pydict \<Rightarrow> bool) \<Rightarrow> (string \<Rightarrow> 't option) \<Rightarrow> pydict
     \<Rightarrow> pyexn + (bool \<times> ResultSeverity \<times> 't details)" where
  "parse_results failed_response strptime response =
     (if failed_response response then Inr (False, information, Text ''Not found.'')
      else case getitem response ''RawResult'' of
        Inl err \<Rightarrow> Inl err
      | Inr (JDict raw) \<Rightarrow>
          (if truthy (dict_get raw ''whitelisted'' (JBool False))
           then Inr (False, information, Text ''Whitelisted.'')
           else
             (let sev = dict_get raw ''severity'' (JStr ''Low'')
              in case getitem response ''Status'' of
                Inl err \<Rightarrow> Inl err
              | Inr status \<Rightarrow>
             (case py_add (dict_get raw ''tags'' (JList [])) (dict_get raw ''SystemTags'' (JList [])) of
                Inl err \<Rightarrow> Inl err
              | Inr tgs \<Rightarrow>
             (case py_strptime strptime (dict_get raw ''firstSeen'' JNull) of
                Inl err \<Rightarrow> Inl err
              | Inr t_first \<Rightarrow>
             (case py_strptime strptime (dict_get raw ''lastSeen'' JNull) of
                Inl err \<Rightarrow> Inl err
              | Inr t_last \<Rightarrow>
             (case py_strptime strptime (dict_get raw ''lastUpdateDate'' JNull) of
                Inl err \<Rightarrow> Inl err
              | Inr t_update \<Rightarrow>
                 (let result_dict =
                        \<lparr>threat_actors = dict_get raw ''relatedThreatActors'' (JStr []),
                         geolocation = dict_get raw ''geolocation'' JNull,
                         response_code = status,
                         tags = tgs,
                         malware = dict_get raw ''relatedMalware'' (JList []),
                         campaigns = dict_get raw ''relatedCampaigns'' (JList []),
                         score = dict_get raw ''score'' (JInt 0),
                         first_seen = t_first,
                         last_seen = t_last,
                         last_update = t_update\<rparr>;
                      severity =
                        (if sev = JStr ''Low'' then information
                         else if sev = JStr ''Medium'' then warning
                         else if sev = JStr ''High'' then high
                         else unknown)
                  in Inr (True, severity, Details result_dict))))))))
      | Inr other \<Rightarrow> Inr (False, information, Text ''Not found.''))"

section \<open>Concrete inputs\<close>

text \<open>
  An environment to run the model on: a POSIX file system with three entries in every
  directory, one row in every file, every post answered with status 200, and simple
  stand-ins for the cryptographic functions.
\<close>

definition posix_env :: env where
  "posix_env =
     \<lparr>b64decode = (\<lambda>s. Some (utf8_encode s)),
      b64encode = map (\<lambda>b. char_of (unat b)),
      hmac_sha256 = (\<lambda>key msg. key @ msg),
      getsizeof_overhead = 49,
      utcnow = (\<lambda>n. ''Mon, 01 Jan 2024 00:00:00 GMT''),
      respond = (\<lambda>n. Response 200),
      str_Path = (\<lambda>p. p),
      listdir = (\<lambda>d. [''hosts.csv'', ''notes.txt'', ''procs.csv'']),
      joinpath = (\<lambda>d n. d @ ''/'' @ n),
      read_csv = (\<lambda>p delim. Inr [[(''c'', ''1'')]])\<rparr>"

definition uploader0 :: la_uploader where
  "uploader0 =
     \<lparr>workspace = ''ws'', workspace_secret = ''c2VjcmV0'', debug = False,
      ops_loc = ''.ods.opinsights.azure.com''\<rparr>"

definition io0 :: io where
  "io0 = \<lparr>requests = [], stdout = [], progress = 0\<rparr>"

text \<open>A row with one column \<open>a\<close> holding \<open>n\<close> letters; its JSON text has \<open>n + 9\<close>
  characters.\<close>

definition big_row :: "nat \<Rightarrow> row" where
  "big_row n = [(''a'', replicate n CHR ''x'')]"

text \<open>
  Responses to run the parser on: a hit of high severity with its three dates, and the same
  hit without them.  For these runs \<open>_failed_response\<close> is taken to test the status, and
  the date parser to accept every string.
\<close>

definition status_failed :: "pydict \<Rightarrow> bool" where
  "status_failed response = (map_of response ''Status'' \<noteq> Some (JInt 200))"

definition dated_response :: pydict where
  "dated_response =
     [(''Status'', JInt 200),
      (''RawResult'', JDict [(''severity'', JStr ''High''),
                             (''firstSeen'', JStr ''2021-03-04T05:06:07.000Z''),
                             (''lastSeen'', JStr ''2021-03-05T05:06:07.000Z''),
                             (''lastUpdateDate'', JStr ''2021-03-06T05:06:07.000Z'')])]"

definition undated_response :: pydict where
  "undated_response = [(''Status'', JInt 200), (''RawResult'', JDict [(''severity'', JStr ''High'')])]"

section \<open>Properties of the uploader\<close>

lemma re_sub_nonword_filter: "re_sub_nonword s = filter word_char s"
proof (induction s rule: re_sub_nonword.induct)
  case 1
  show ?case by simp
next
  case (2 c cs)
  have drop: "filter word_char (dropWhile (\<lambda>x. \<not> word_char x) cs) = filter word_char cs"
    by (induction cs) auto
  from 2 drop show ?case by simp
qed

text \<open>
  With a secret that decodes, \<open>_post_data\<close> hands one request to \<open>requests.post\<close>, and
  its \<open>Log-Type\<close> header is the table name after the substitution.
\<close>

lemma post_data_log_type:
  assumes "b64decode e (workspace_secret self) = Some key"
  shows "\<exists>rq. requests (snd (post_data e self body t s)) = requests s @ [rq]
           \<and> header ''Log-Type'' rq = Some (re_sub_nonword t)"
  using assms
  by (auto simp: post_data_def build_signature_def Let_def header_def split: outcome.splits)

text \<open>
  C6.  The table name sent in the \<open>Log-Type\<close> header of the request that \<open>_post_data\<close>
  issues is the given name with exactly the characters outside \<open>[A-Za-z0-9_]\<close> removed
  and the others kept in order; a name that is already sanitized is sent as it is, so
  sanitizing twice is the same as sanitizing once; and for \<open>My-Table!1\<close> the header is
  \<open>MyTable1\<close>.  The substitution itself is the filter by the character class.
\<close>

theorem sanitize_table_name:
  assumes "b64decode e (workspace_secret self) = Some key"
  shows "re_sub_nonword t = filter word_char t
   \<and> re_sub_nonword (re_sub_nonword t) = re_sub_nonword t
   \<and> re_sub_nonword ''My-Table!1'' = ''MyTable1''
   \<and> (\<exists>rq. requests (snd (post_data e self body t s)) = requests s @ [rq]
          \<and> header ''Log-Type'' rq = Some (filter word_char t))
   \<and> (\<exists>rq. requests (snd (post_data e self body (filter word_char t) s)) = requests s @ [rq]
          \<and> header ''Log-Type'' rq = Some (filter word_char t))
   \<and> (\<exists>rq. requests (snd (post_data e self body ''My-Table!1'' s)) = requests s @ [rq]
          \<and> header ''Log-Type'' rq = Some ''MyTable1'')"
proof -
  have ex: "re_sub_nonword ''My-Table!1'' = ''MyTable1''"
    unfolding re_sub_nonword_filter by (simp add: word_char_def)
  have idem: "re_sub_nonword (filter word_char t) = filter word_char t"
    by (simp add: re_sub_nonword_filter)
  have sent: "\<exists>rq. requests (snd (post_data e self body t s)) = requests s @ [rq]
          \<and> header ''Log-Type'' rq = Some (filter word_char t)"
    using post_data_log_type [OF assms, of body t s] by (simp add: re_sub_nonword_filter)
  have again: "\<exists>rq. requests (snd (post_data e self body (filter word_char t) s)) = requests s @ [rq]
          \<and> header ''Log-Type'' rq = Some (filter word_char t)"
    using post_data_log_type [OF assms, of body "filter word_char t" s] unfolding idem .
  have example: "\<exists>rq. requests (snd (post_data e self body ''My-Table!1'' s)) = requests s @ [rq]
          \<and> header ''Log-Type'' rq = Some ''MyTable1''"
    using post_data_log_type [OF assms, of body "''My-Table!1''" s] unfolding ex .
  have "re_sub_nonword t = filter word_char t"
    and "re_sub_nonword (re_sub_nonword t) = re_sub_nonword t"
    by (simp_all add: re_sub_nonword_filter)
  with ex sent again example show ?thesis by blast
qed

text \<open>The theorem at a post of the table name \<open>My-Table!1\<close>.\<close>

theorem sanitize_table_name_witness:
  "b64decode posix_env (workspace_secret uploader0) = Some (utf8_encode ''c2VjcmV0'')
   \<and> map (header ''Log-Type'')
        (requests (snd (post_data posix_env uploader0 ''[]'' ''My-Table!1'' io0)))
       = [Some ''MyTable1'']
   \<and> filter word_char ''My-Table!1'' = ''MyTable1''"
proof -
  have key: "b64decode posix_env (workspace_secret uploader0) = Some (utf8_encode ''c2VjcmV0'')"
    by (simp add: posix_env_def uploader0_def)
  have io: "requests io0 = []" by (simp add: io0_def)
  from sanitize_table_name [OF key, of "''My-Table!1''" "''[]''" io0]
  have f: "re_sub_nonword ''My-Table!1'' = filter word_char ''My-Table!1''"
    and x: "re_sub_nonword ''My-Table!1'' = ''MyTable1''"
    and h: "\<exists>rq. requests (snd (post_data posix_env uploader0 ''[]'' ''My-Table!1'' io0))
                  = requests io0 @ [rq]
               \<and> header ''Log-Type'' rq = Some ''MyTable1''"
    by blast+
  from h io have "map (header ''Log-Type'')
        (requests (snd (post_data posix_env uploader0 ''[]'' ''My-Table!1'' io0)))
       = [Some ''MyTable1'']"
    by auto
  moreover from f x have "filter word_char ''My-Table!1'' = ''MyTable1''" by simp
  ultimately show ?thesis using key by blast
qed

subsection \<open>One post, and the posts of a frame\<close>

lemma py_split_nonempty: "py_split sep s \<noteq> []"
  by (induction s) (auto split: list.splits)

text \<open>
  A call of \<open>_post_data\<close> either raises before anything is sent, or hands exactly one
  request to \<open>requests.post\<close>, which carries the body and the sanitized table name, and
  raises exactly when that request is not accepted.
\<close>

lemma post_data_trace:
  assumes "post_data e self body t s = (res, s')"
  shows "(requests s' = requests s \<and> isl res)
       \<or> (\<exists>rq. requests s' = requests s @ [rq] \<and> req_data rq = body
              \<and> header ''Log-Type'' rq = Some (re_sub_nonword t)
              \<and> (isl res \<longleftrightarrow> \<not> accepted (respond e (length (requests s)))))"
  using assms
  by (auto simp: post_data_def Let_def header_def split: sum.splits outcome.splits if_splits)

text \<open>
  The loop of \<open>upload_df\<close>: the requests it adds carry, in order, the first batches of the
  frame; a request that is not accepted is the last one and makes the loop raise; and when
  the loop ends normally all batches but the residual one have been sent.
\<close>

lemma upload_rows_trace:
  "upload_rows e self t ev rows s = (res, s') \<Longrightarrow>
   \<exists>rqs. requests s' = requests s @ rqs
     \<and> map req_data rqs = map json_dumps (take (length rqs) (batches e ev rows))
     \<and> (\<forall>rq\<in>set rqs. header ''Log-Type'' rq = Some (re_sub_nonword t))
     \<and> (\<forall>i<length rqs. \<not> accepted (respond e (length (requests s) + i))
            \<longrightarrow> Suc i = length rqs \<and> isl res)
     \<and> (\<forall>ev'. res = Inr ev' \<longrightarrow>
           take (length rqs) (batches e ev rows) @ (if ev' \<noteq> [] then [ev'] else [])
             = batches e ev rows)"
proof (induction rows arbitrary: ev s)
  case Nil
  then show ?case by auto
next
  case (Cons r rs)
  show ?case
  proof (cases "over_ceiling e (ev @ [r])")
    case False
    with Cons.prems have "upload_rows e self t (ev @ [r]) rs s = (res, s')"
      by (simp add: over_ceiling_def)
    from Cons.IH [OF this] False show ?thesis by simp
  next
    case True
    let ?s1 = "if debug self
               then s\<lparr>stdout := stdout s @ [''Data larger than 25MB spliting data requests.'']\<rparr>
               else s"
    have rs1: "requests ?s1 = requests s" by simp
    obtain pres s2 where pd: "post_data e self (json_dumps (ev @ [r])) t ?s1 = (pres, s2)"
      by (cases "post_data e self (json_dumps (ev @ [r])) t ?s1") auto
    have bt: "batches e ev (r # rs) = (ev @ [r]) # batches e [] rs"
      using True by simp
    show ?thesis
    proof (cases pres)
      case (Inl err)
      with Cons.prems True pd have res: "res = Inl err" "s' = s2"
        by (auto simp: over_ceiling_def Let_def)
      from post_data_trace [OF pd] rs1 Inl
      consider "requests s2 = requests s"
        | rq where "requests s2 = requests s @ [rq]" "req_data rq = json_dumps (ev @ [r])"
            "header ''Log-Type'' rq = Some (re_sub_nonword t)"
            "\<not> accepted (respond e (length (requests s)))"
        by auto
      then show ?thesis
      proof cases
        case 1
        with res show ?thesis by auto
      next
        case 2
        with res bt show ?thesis
          by (intro exI [of _ "[rq]"]) auto
      qed
    next
      case (Inr u)
      with Cons.prems True pd have run: "upload_rows e self t [] rs s2 = (res, s')"
        by (auto simp: over_ceiling_def Let_def)
      from post_data_trace [OF pd] rs1 Inr
      obtain rq where rq: "requests s2 = requests s @ [rq]" "req_data rq = json_dumps (ev @ [r])"
            "header ''Log-Type'' rq = Some (re_sub_nonword t)"
            "accepted (respond e (length (requests s)))"
        by auto
      from Cons.IH [OF run] obtain rqs where rqs:
        "requests s' = requests s2 @ rqs"
        "map req_data rqs = map json_dumps (take (length rqs) (batches e [] rs))"
        "\<forall>rq\<in>set rqs. header ''Log-Type'' rq = Some (re_sub_nonword t)"
        "\<forall>i<length rqs. \<not> accepted (respond e (length (requests s2) + i))
            \<longrightarrow> Suc i = length rqs \<and> isl res"
        "\<forall>ev'. res = Inr ev' \<longrightarrow>
           take (length rqs) (batches e [] rs) @ (if ev' \<noteq> [] then [ev'] else [])
             = batches e [] rs"
        by blast
      have idx: "\<forall>i<length (rq # rqs). \<not> accepted (respond e (length (requests s) + i))
                   \<longrightarrow> Suc i = length (rq # rqs) \<and> isl res"
      proof (intro allI impI)
        fix i
        assume i: "i < length (rq # rqs)"
          and na: "\<not> accepted (respond e (length (requests s) + i))"
        show "Suc i = length (rq # rqs) \<and> isl res"
        proof (cases i)
          case 0
          with na rq(4) show ?thesis by simp
        next
          case (Suc j)
          with i na rqs(4) rq(1) show ?thesis by auto
        qed
      qed
      show ?thesis
        apply (intro exI [of _ "rq # rqs"] conjI)
        subgoal using rq rqs by simp
        subgoal using rq rqs bt by simp
        subgoal using rq rqs by simp
        subgoal using idx .
        subgoal using rqs(5) bt by simp
        done
    qed
  qed
qed

lemma upload_df_trace:
  assumes "upload_df e self rows t s = (res, s')"
  shows "\<exists>rqs. requests s' = requests s @ rqs
     \<and> map req_data rqs = map json_dumps (take (length rqs) (batches e [] rows))
     \<and> (\<forall>rq\<in>set rqs. header ''Log-Type'' rq = Some (re_sub_nonword t))
     \<and> (\<forall>i<length rqs. \<not> accepted (respond e (length (requests s) + i))
            \<longrightarrow> Suc i = length rqs \<and> isl res)
     \<and> (\<not> isl res \<longrightarrow> length rqs = length (batches e [] rows))"
proof -
  obtain lres s1 where lp: "upload_rows e self t [] rows s = (lres, s1)"
    by (cases "upload_rows e self t [] rows s") auto
  from upload_rows_trace [OF lp] obtain rqs where rqs:
    "requests s1 = requests s @ rqs"
    "map req_data rqs = map json_dumps (take (length rqs) (batches e [] rows))"
    "\<forall>rq\<in>set rqs. header ''Log-Type'' rq = Some (re_sub_nonword t)"
    "\<forall>i<length rqs. \<not> accepted (respond e (length (requests s) + i))
        \<longrightarrow> Suc i = length rqs \<and> isl lres"
    "\<forall>ev'. lres = Inr ev' \<longrightarrow>
       take (length rqs) (batches e [] rows) @ (if ev' \<noteq> [] then [ev'] else [])
         = batches e [] rows"
    by blast
  show ?thesis
  proof (cases lres)
    case (Inl err)
    with assms lp have "res = Inl err" "s' = s1"
      by (auto simp: upload_df_def)
    with rqs Inl show ?thesis by auto
  next
    case (Inr ev')
    note lres = Inr
    have allok: "\<forall>i<length rqs. accepted (respond e (length (requests s) + i))"
      using rqs(4) Inr by auto
    have bt: "take (length rqs) (batches e [] rows) @ (if ev' \<noteq> [] then [ev'] else [])
         = batches e [] rows"
      using rqs(5) Inr by simp
    have "length (map req_data rqs) = length (map json_dumps (take (length rqs) (batches e [] rows)))"
      using rqs(2) by simp
    then have le: "length rqs \<le> length (batches e [] rows)"
      by simp
    have "length (take (length rqs) (batches e [] rows) @ (if ev' \<noteq> [] then [ev'] else []))
            = length (batches e [] rows)"
      using bt by simp
    then have len: "length (batches e [] rows) = length rqs + (if ev' \<noteq> [] then 1 else 0)"
      using le by (simp split: if_splits)
    show ?thesis
    proof (cases "ev' = []")
      case True
      with assms lp lres have "requests s' = requests s1" "res = Inr ()"
        by (auto simp: upload_df_def split: if_splits)
      moreover from len True have "length rqs = length (batches e [] rows)"
        by simp
      ultimately show ?thesis using rqs allok by auto
    next
      case False
      obtain pres s2 where pd: "post_data e self (json_dumps ev') t s1 = (pres, s2)"
        by (cases "post_data e self (json_dumps ev') t s1") auto
      with assms lp lres False have fin: "requests s' = requests s2" "isl res = isl pres"
        by (auto simp: upload_df_def split: sum.splits if_splits)
      have len': "length (batches e [] rows) = Suc (length rqs)"
        using len False by simp
      from post_data_trace [OF pd]
      consider "requests s2 = requests s1" "isl pres"
        | rq where "requests s2 = requests s1 @ [rq]" "req_data rq = json_dumps ev'"
            "header ''Log-Type'' rq = Some (re_sub_nonword t)"
            "isl pres \<longleftrightarrow> \<not> accepted (respond e (length (requests s1)))"
        by auto
      then show ?thesis
      proof cases
        case 1
        with fin rqs allok show ?thesis by auto
      next
        case 2
        have tk: "take (Suc (length rqs)) (batches e [] rows) = take (length rqs) (batches e [] rows) @ [ev']"
          using len' bt False by simp
        show ?thesis
          apply (intro exI [of _ "rqs @ [rq]"] conjI)
          subgoal using 2 fin rqs by simp
          subgoal using 2 rqs tk by simp
          subgoal using 2 rqs by simp
          subgoal using 2 fin rqs(1) allok by (auto simp: less_Suc_eq)
          subgoal using len' by simp
          done
      qed
    qed
  qed
qed

subsection \<open>The batches\<close>

lemma concat_batches: "concat (batches e ev rows) = ev @ rows"
  by (induction rows arbitrary: ev) auto

lemma batches_nonempty: "[] \<notin> set (batches e ev rows)"
  by (induction rows arbitrary: ev) auto

lemma batches_butlast_over: "b \<in> set (butlast (batches e ev rows)) \<Longrightarrow> over_ceiling e b"
  by (induction rows arbitrary: ev) (auto split: if_splits)

text \<open>No batch was over the ceiling before its last record was appended.\<close>

lemma batches_prefix_under:
  "batches e ev rows = b # bs \<Longrightarrow>
   (\<forall>n. length ev < n \<and> n < length b \<longrightarrow> \<not> over_ceiling e (take n b))
   \<and> (\<forall>b'\<in>set bs. \<forall>n. 0 < n \<and> n < length b' \<longrightarrow> \<not> over_ceiling e (take n b'))
   \<and> take (length ev) b = ev \<and> length ev \<le> length b"
proof (induction rows arbitrary: ev b bs)
  case Nil
  then show ?case by (auto split: if_splits)
next
  case (Cons r rs)
  show ?case
  proof (cases "over_ceiling e (ev @ [r])")
    case True
    with Cons.prems have b: "b = ev @ [r]" and bs: "bs = batches e [] rs" by auto
    have tail: "\<forall>b'\<in>set bs. \<forall>n. 0 < n \<and> n < length b' \<longrightarrow> \<not> over_ceiling e (take n b')"
    proof (cases bs)
      case Nil
      then show ?thesis by simp
    next
      case (Cons c cs)
      with bs have "batches e [] rs = c # cs" by simp
      from Cons.IH [OF this] Cons show ?thesis by auto
    qed
    with b show ?thesis by auto
  next
    case False
    with Cons.prems have run: "batches e (ev @ [r]) rs = b # bs" by simp
    from Cons.IH [OF run] have ih:
      "\<forall>n. length (ev @ [r]) < n \<and> n < length b \<longrightarrow> \<not> over_ceiling e (take n b)"
      "\<forall>b'\<in>set bs. \<forall>n. 0 < n \<and> n < length b' \<longrightarrow> \<not> over_ceiling e (take n b')"
      "take (length (ev @ [r])) b = ev @ [r]" "length (ev @ [r]) \<le> length b"
      by auto
    have t1: "take (length ev) b = ev"
    proof -
      have "take (length ev) (take (length (ev @ [r])) b) = take (length ev) (ev @ [r])"
        using ih(3) by simp
      then show ?thesis by (simp add: min_def)
    qed
    have "\<not> over_ceiling e (take n b)" if "length ev < n" "n < length b" for n
    proof (cases "n = Suc (length ev)")
      case True
      with ih(3) False show ?thesis by simp
    next
      case False
      with that ih(1) show ?thesis by simp
    qed
    with ih t1 show ?thesis by auto
  qed
qed

subsection \<open>The length of the JSON text\<close>

lemma length_join:
  "length (join sep xs) = sum_list (map length xs) + length sep * (length xs - 1)"
  by (induction sep xs rule: join.induct) auto

lemma length_json_dumps:
  "length (json_dumps events)
     = 2 + sum_list (map (\<lambda>r. length (json_dict r)) events) + 2 * (length events - 1)"
  by (simp add: json_dumps_def length_join comp_def)

lemma length_concat_replicate_single: "length (concat (replicate n [c])) = n"
  by (induction n) auto

lemma length_json_dict_big_row: "length (json_dict (big_row n)) = n + 9"
  by (simp add: json_dict_def big_row_def json_str_def json_escape_char_def dquote_def
      backslash_def length_concat_replicate_single)

lemma batches_three_10MiB:
  assumes "length (json_dict r1) = 10485760" "length (json_dict r2) = 10485760"
    "length (json_dict r3) = 10485760" "getsizeof_overhead e \<le> 5242876"
  shows "batches e [] [r1, r2, r3] = [[r1, r2, r3]]"
  using assms by (simp add: over_ceiling_def getsizeof_def length_json_dumps)

text \<open>A post that is answered with a status in 200..299 returns normally and adds its request.\<close>

lemma post_data_accepted:
  assumes "b64decode e (workspace_secret self) = Some key"
    and "respond e (length (requests s)) = Response code" "200 \<le> code" "code \<le> 299"
  shows "fst (post_data e self body t s) = Inr ()"
    and "map req_data (requests (snd (post_data e self body t s))) = map req_data (requests s) @ [body]"
    and "length (requests (snd (post_data e self body t s))) = Suc (length (requests s))"
  using assms by (simp_all add: post_data_def build_signature_def Let_def)

lemma posix_env_simps:
  "b64decode posix_env x = Some (utf8_encode x)"
  "respond posix_env n = Response 200"
  "getsizeof_overhead posix_env = 49"
  by (simp_all add: posix_env_def)

text \<open>
  Three rows whose JSON texts have 10,485,760 characters each, uploaded with every post
  accepted: \<open>upload_df\<close> issues a single post, and it holds all three rows.
\<close>

theorem three_10MiB_records_counterexample:
  "length (json_dict (big_row 10485751)) = 10485760
   \<and> fst (upload_df posix_env uploader0
            [big_row 10485751, big_row 10485751, big_row 10485751] ''Hosts'' io0) = Inr ()
   \<and> map req_data (requests (snd (upload_df posix_env uploader0
            [big_row 10485751, big_row 10485751, big_row 10485751] ''Hosts'' io0)))
       = [json_dumps [big_row 10485751, big_row 10485751, big_row 10485751]]"
proof -
  let ?r = "big_row 10485751"
  have len: "length (json_dict ?r) = 10485760"
    by (simp add: length_json_dict_big_row)
  have ok: "fst (post_data posix_env uploader0 (json_dumps [?r, ?r, ?r]) ''Hosts'' io0) = Inr ()"
    by (rule post_data_accepted(1) [where key = "utf8_encode (workspace_secret uploader0)" and code = 200])
       (simp_all add: posix_env_simps)
  have rq: "map req_data (requests (snd (post_data posix_env uploader0 (json_dumps [?r, ?r, ?r]) ''Hosts'' io0)))
      = [json_dumps [?r, ?r, ?r]]"
    using post_data_accepted(2) [where e = posix_env and self = uploader0 and s = io0
        and key = "utf8_encode (workspace_secret uploader0)" and code = 200
        and body = "json_dumps [?r, ?r, ?r]" and t = "''Hosts''"]
    by (simp add: posix_env_simps io0_def)
  obtain s2 where pd: "post_data posix_env uploader0 (json_dumps [?r, ?r, ?r]) ''Hosts'' io0 = (Inr (), s2)"
    using ok by (cases "post_data posix_env uploader0 (json_dumps [?r, ?r, ?r]) ''Hosts'' io0") auto
  have nodebug: "debug uploader0 = False"
    by (simp add: uploader0_def)
  have loop: "upload_rows posix_env uploader0 ''Hosts'' [] [?r, ?r, ?r] io0 = (Inr [], s2)"
    by (simp add: getsizeof_def length_json_dumps len posix_env_simps nodebug pd)
  have df: "upload_df posix_env uploader0 [?r, ?r, ?r] ''Hosts'' io0 = (Inr (), s2)"
    unfolding upload_df_def loop by (simp add: nodebug)
  from rq pd have "map req_data (requests s2) = [json_dumps [?r, ?r, ?r]]" by simp
  with df len show ?thesis by simp
qed


text \<open>
  C1 (amended).  Whatever the outcome of \<open>upload_df\<close>, the requests it adds carry, in
  order, the first batches of the frame, and all of them when it returns normally.  The
  batches partition the rows; none is empty; after each append the size \<open>sys.getsizeof\<close>
  of the JSON text (its length plus the fixed overhead of a string object) is compared
  with 26,214,400: every batch but possibly the last was flushed because it was strictly
  over, none was over before its last record was appended, and the record that caused the
  overflow is in the batch.  Three records of 10 MiB each give one batch, hence one post,
  holding all three: two of them are still under the ceiling.
\<close>

theorem upload_df_batching:
  assumes "upload_df e self rows t s = (res, s')"
  shows "\<exists>rqs. requests s' = requests s @ rqs
      \<and> map req_data rqs = map json_dumps (take (length rqs) (batches e [] rows))
      \<and> (\<not> isl res \<longrightarrow> length rqs = length (batches e [] rows))
      \<and> concat (batches e [] rows) = rows
      \<and> (\<forall>b\<in>set (batches e [] rows).
            b \<noteq> [] \<and> (\<forall>n. 0 < n \<and> n < length b \<longrightarrow> \<not> over_ceiling e (take n b)))
      \<and> (\<forall>b\<in>set (butlast (batches e [] rows)). over_ceiling e b)
      \<and> (\<forall>r1 r2 r3. rows = [r1, r2, r3] \<and> length (json_dict r1) = 10485760
            \<and> length (json_dict r2) = 10485760 \<and> length (json_dict r3) = 10485760
            \<and> getsizeof_overhead e \<le> 5242876
            \<longrightarrow> batches e [] rows = [[r1, r2, r3]])"
proof -
  from upload_df_trace [OF assms] obtain rqs where rqs:
    "requests s' = requests s @ rqs"
    "map req_data rqs = map json_dumps (take (length rqs) (batches e [] rows))"
    "\<not> isl res \<longrightarrow> length rqs = length (batches e [] rows)"
    by blast
  have part: "concat (batches e [] rows) = rows"
    by (simp add: concat_batches)
  have under: "b \<noteq> [] \<and> (\<forall>n. 0 < n \<and> n < length b \<longrightarrow> \<not> over_ceiling e (take n b))"
    if b: "b \<in> set (batches e [] rows)" for b
  proof -
    from b have ne: "b \<noteq> []" using batches_nonempty [of e "[]" rows] by auto
    from b obtain c cs where cs: "batches e [] rows = c # cs"
      by (cases "batches e [] rows") auto
    from batches_prefix_under [OF cs] b cs have
      "\<forall>n. 0 < n \<and> n < length b \<longrightarrow> \<not> over_ceiling e (take n b)"
      by auto
    with ne show ?thesis by simp
  qed
  have over: "\<forall>b\<in>set (butlast (batches e [] rows)). over_ceiling e b"
    using batches_butlast_over by blast
  have three: "\<forall>r1 r2 r3. rows = [r1, r2, r3] \<and> length (json_dict r1) = 10485760
            \<and> length (json_dict r2) = 10485760 \<and> length (json_dict r3) = 10485760
            \<and> getsizeof_overhead e \<le> 5242876
            \<longrightarrow> batches e [] rows = [[r1, r2, r3]]"
    using batches_three_10MiB by blast
  show ?thesis
    apply (intro exI [of _ rqs] conjI)
    subgoal using rqs(1) .
    subgoal using rqs(2) .
    subgoal using rqs(3) .
    subgoal using part .
    subgoal using under by blast
    subgoal using over .
    subgoal using three .
    done
qed

text \<open>The theorem at the three rows of 10 MiB.\<close>

theorem upload_df_batching_witness:
  "length (json_dict (big_row 10485751)) = 10485760
   \<and> getsizeof_overhead posix_env \<le> 5242876
   \<and> batches posix_env [] [big_row 10485751, big_row 10485751, big_row 10485751]
       = [[big_row 10485751, big_row 10485751, big_row 10485751]]
   \<and> (\<exists>rqs. requests (snd (upload_df posix_env uploader0
                [big_row 10485751, big_row 10485751, big_row 10485751] ''Hosts'' io0))
              = requests io0 @ rqs
          \<and> map req_data rqs = map json_dumps (take (length rqs)
                [[big_row 10485751, big_row 10485751, big_row 10485751]]))"
proof -
  let ?r = "big_row 10485751"
  let ?run = "upload_df posix_env uploader0 [?r, ?r, ?r] ''Hosts'' io0"
  have len: "length (json_dict ?r) = 10485760"
    by (simp add: length_json_dict_big_row)
  have ovh: "getsizeof_overhead posix_env \<le> 5242876"
    by (simp add: posix_env_simps)
  have run: "?run = (fst ?run, snd ?run)" by simp
  from upload_df_batching [OF run] obtain rqs where rqs:
    "requests (snd ?run) = requests io0 @ rqs"
    "map req_data rqs = map json_dumps (take (length rqs) (batches posix_env [] [?r, ?r, ?r]))"
    "\<forall>r1 r2 r3. [?r, ?r, ?r] = [r1, r2, r3] \<and> length (json_dict r1) = 10485760
            \<and> length (json_dict r2) = 10485760 \<and> length (json_dict r3) = 10485760
            \<and> getsizeof_overhead posix_env \<le> 5242876
            \<longrightarrow> batches posix_env [] [?r, ?r, ?r] = [[r1, r2, r3]]"
    by blast
  from rqs(3) len ovh have b: "batches posix_env [] [?r, ?r, ?r] = [[?r, ?r, ?r]]"
    by blast
  from rqs(1,2) b have "\<exists>rqs. requests (snd ?run) = requests io0 @ rqs
          \<and> map req_data rqs = map json_dumps (take (length rqs) [[?r, ?r, ?r]])"
    by auto
  with len ovh b show ?thesis by blast
qed


lemma length_json_dict_single:
  "length (json_dict [(k, v)]) = length (json_str k) + length (json_str v) + 4"
  by (simp add: json_dict_def)

lemma length_json_str_le: "length (json_str x) \<le> 6 * length x + 2"
proof -
  have "length (concat (map json_escape_char x)) \<le> 6 * length x"
    by (induction x) (auto simp: json_escape_char_def Let_def)
  then show ?thesis by (simp add: json_str_def)
qed


subsection \<open>Failing fast\<close>

text \<open>
  The loop of \<open>upload_folder\<close> over the files: a request that is not accepted is the last
  one of the run, and the run raises.
\<close>

lemma upload_paths_trace:
  "upload_paths e self t_name table_name delim paths s = (res, s') \<Longrightarrow>
   \<exists>rqs. requests s' = requests s @ rqs
     \<and> (\<forall>i<length rqs. \<not> accepted (respond e (length (requests s) + i))
            \<longrightarrow> Suc i = length rqs \<and> isl res)"
proof (induction paths arbitrary: table_name s)
  case Nil
  then show ?case by auto
next
  case (Cons path paths)
  show ?case
  proof (cases "read_csv e path delim")
    case (Inl err)
    with Cons.prems show ?thesis by auto
  next
    case (Inr df)
    define tn where "tn = (if t_name = False then table_name_of_path path else name_of table_name)"
    obtain ures s1 where ud: "upload_df e self df tn s = (ures, s1)"
      by (cases "upload_df e self df tn s") auto
    from upload_df_trace [OF ud] obtain rqs1 where rqs1:
      "requests s1 = requests s @ rqs1"
      "\<forall>i<length rqs1. \<not> accepted (respond e (length (requests s) + i))
            \<longrightarrow> Suc i = length rqs1 \<and> isl ures"
      by blast
    show ?thesis
    proof (cases ures)
      case (Inl err)
      with Cons.prems Inr ud have "res = Inl err" "s' = s1"
        by (auto simp: tn_def Let_def)
      with rqs1 Inl show ?thesis by auto
    next
      case (Inr u)
      note ures = Inr
      have ok1: "\<forall>i<length rqs1. accepted (respond e (length (requests s) + i))"
        using rqs1(2) Inr by auto
      from Cons.prems \<open>read_csv e path delim = Inr df\<close> ud ures
      have run: "upload_paths e self t_name (Some tn) delim paths (s1\<lparr>progress := progress s1 + 1\<rparr>)
                   = (res, s')"
        by (auto simp: tn_def Let_def)
      from Cons.IH [OF run] obtain rqs2 where rqs2:
        "requests s' = requests s1 @ rqs2"
        "\<forall>i<length rqs2. \<not> accepted (respond e (length (requests s1) + i))
            \<longrightarrow> Suc i = length rqs2 \<and> isl res"
        by auto
      have idx: "\<forall>i<length (rqs1 @ rqs2). \<not> accepted (respond e (length (requests s) + i))
            \<longrightarrow> Suc i = length (rqs1 @ rqs2) \<and> isl res"
      proof (intro allI impI)
        fix i
        assume i: "i < length (rqs1 @ rqs2)"
          and na: "\<not> accepted (respond e (length (requests s) + i))"
        from na ok1 have ge: "length rqs1 \<le> i" by (meson not_le)
        define j where "j = i - length rqs1"
        with ge i have j: "j < length rqs2" "i = length rqs1 + j" by auto
        with na rqs1(1) have "\<not> accepted (respond e (length (requests s1) + j))"
          by (simp add: add.assoc)
        with rqs2(2) j show "Suc i = length (rqs1 @ rqs2) \<and> isl res" by auto
      qed
      show ?thesis
        apply (intro exI [of _ "rqs1 @ rqs2"] conjI)
        subgoal using rqs1(1) rqs2(1) by simp
        subgoal using idx .
        done
    qed
  qed
qed

text \<open>
  C5.  In a run of \<open>upload_df\<close> and in a run of \<open>upload_folder\<close>, a post that fails (no
  connection, or a status outside 200..299, such as 403) is the last post of the run, and
  the run raises: no post is issued after it, for this frame or for the files that follow.
\<close>

theorem fail_fast:
  "(upload_df e self rows t s = (res, s') \<longrightarrow>
      length (requests s) \<le> length (requests s')
      \<and> (\<forall>i. length (requests s) \<le> i \<and> i < length (requests s') \<and> \<not> accepted (respond e i)
            \<longrightarrow> Suc i = length (requests s') \<and> isl res))
   \<and> (upload_folder e self folder_path table_name delim s = (fres, fs') \<longrightarrow>
      length (requests s) \<le> length (requests fs')
      \<and> (\<forall>i. length (requests s) \<le> i \<and> i < length (requests fs') \<and> \<not> accepted (respond e i)
            \<longrightarrow> Suc i = length (requests fs') \<and> isl fres))"
proof (intro conjI impI allI)
  assume run: "upload_df e self rows t s = (res, s')"
  from upload_df_trace [OF run] obtain rqs where rqs:
    "requests s' = requests s @ rqs"
    "\<forall>i<length rqs. \<not> accepted (respond e (length (requests s) + i))
            \<longrightarrow> Suc i = length rqs \<and> isl res"
    by blast
  show "length (requests s) \<le> length (requests s')" using rqs(1) by simp
  fix i
  assume i: "length (requests s) \<le> i \<and> i < length (requests s') \<and> \<not> accepted (respond e i)"
  define j where "j = i - length (requests s)"
  with i rqs(1) have "j < length rqs" "i = length (requests s) + j" by auto
  with rqs i show "Suc i = length (requests s')" "isl res" by auto
next
  assume run: "upload_folder e self folder_path table_name delim s = (fres, fs')"
  let ?s0 = "s\<lparr>progress := 0\<rparr>"
  from run obtain ext where
    "upload_paths e self (bool_name table_name) table_name delim (glob e folder_path ext) ?s0
       = (fres, fs')"
    by (auto simp: upload_folder_def Let_def)
  from upload_paths_trace [OF this] obtain rqs where rqs:
    "requests fs' = requests s @ rqs"
    "\<forall>i<length rqs. \<not> accepted (respond e (length (requests s) + i))
            \<longrightarrow> Suc i = length rqs \<and> isl fres"
    by auto
  show "length (requests s) \<le> length (requests fs')" using rqs(1) by simp
  fix i
  assume i: "length (requests s) \<le> i \<and> i < length (requests fs') \<and> \<not> accepted (respond e i)"
  define j where "j = i - length (requests s)"
  with i rqs(1) have "j < length rqs" "i = length (requests s) + j" by auto
  with rqs i show "Suc i = length (requests fs')" "isl fres" by auto
qed

subsection \<open>The errors of one post\<close>

lemma post_data_rejected:
  assumes "b64decode e (workspace_secret self) = Some key"
    and "respond e (length (requests s)) = Response code" "code < 200 \<or> 299 < code"
  shows "fst (post_data e self body t s) = Inl (upload_failed code)"
    and "length (requests (snd (post_data e self body t s))) = Suc (length (requests s))"
  using assms by (auto simp: post_data_def build_signature_def Let_def)

lemma post_data_no_connection:
  assumes "b64decode e (workspace_secret self) = Some key"
    and "respond e (length (requests s)) = ConnectionError"
  shows "fst (post_data e self body t s) = Inl connect_error"
    and "length (requests (snd (post_data e self body t s))) = Suc (length (requests s))"
  using assms by (auto simp: post_data_def build_signature_def Let_def)

lemma connect_error_neq_upload_failed: "connect_error \<noteq> upload_failed code"
  by (simp add: connect_error_def upload_failed_def)

text \<open>
  C4 (amended).  With a secret that decodes, \<open>_post_data\<close> hands exactly one request to
  \<open>requests.post\<close> (it never retries) and raises exactly when the request is not
  accepted: the error titled \<open>Unable to connect to Workspace\<close> exactly when the
  connection fails, the error titled \<open>Data Upload Failed\<close> exactly when the status is
  below 200 or above 299, and nothing for a status in 200..299.  Both errors are of the
  one class \<open>MsticpyConnectionError\<close>; they differ in title and message, and the status
  code is part of the message text.
\<close>

theorem post_data_errors:
  assumes "b64decode e (workspace_secret self) = Some key"
  shows "(fst (post_data e self body t s) = Inl connect_error
            \<longleftrightarrow> respond e (length (requests s)) = ConnectionError)
     \<and> ((\<exists>code. fst (post_data e self body t s) = Inl (upload_failed code))
            \<longleftrightarrow> (\<exists>code. respond e (length (requests s)) = Response code \<and> (code < 200 \<or> 299 < code)))
     \<and> (\<forall>code. respond e (length (requests s)) = Response code \<and> (code < 200 \<or> 299 < code)
            \<longrightarrow> fst (post_data e self body t s) = Inl (upload_failed code))
     \<and> (fst (post_data e self body t s) = Inr ()
            \<longleftrightarrow> (\<exists>code. respond e (length (requests s)) = Response code \<and> 200 \<le> code \<and> code \<le> 299))
     \<and> length (requests (snd (post_data e self body t s))) = Suc (length (requests s))
     \<and> (\<forall>code. exn_class (upload_failed code) = exn_class connect_error
            \<and> title (upload_failed code) \<noteq> title connect_error
            \<and> message (upload_failed code)
                = ''LogAnalytics data upload failed with code '' @ str_int code @ ''.''
                    @ [newline] @ replicate 16 CHR '' '' @ ''Check Workspace ID and key'')"
proof -
  let ?r = "fst (post_data e self body t s)"
  let ?o = "respond e (length (requests s))"
  have cls: "\<forall>code. exn_class (upload_failed code) = exn_class connect_error
            \<and> title (upload_failed code) \<noteq> title connect_error
            \<and> message (upload_failed code)
                = ''LogAnalytics data upload failed with code '' @ str_int code @ ''.''
                    @ [newline] @ replicate 16 CHR '' '' @ ''Check Workspace ID and key''"
    by (simp add: upload_failed_def connect_error_def)
  show ?thesis
  proof (cases ?o)
    case ConnectionError
    from post_data_no_connection [OF assms ConnectionError, of body t]
    have r: "?r = Inl connect_error"
      and n: "length (requests (snd (post_data e self body t s))) = Suc (length (requests s))"
      by simp_all
    show ?thesis
      using r n ConnectionError cls connect_error_neq_upload_failed by auto
  next
    case (Response code)
    show ?thesis
    proof (cases "code < 200 \<or> 299 < code")
      case True
      from post_data_rejected [OF assms Response True, of body t]
      have r: "?r = Inl (upload_failed code)"
        and n: "length (requests (snd (post_data e self body t s))) = Suc (length (requests s))"
        by simp_all
      show ?thesis
        using r n Response True cls connect_error_neq_upload_failed [of code] by auto
    next
      case False
      then have ok: "200 \<le> code" "code \<le> 299" by auto
      from post_data_accepted [OF assms Response ok, of body t]
      have r: "?r = Inr ()"
        and n: "length (requests (snd (post_data e self body t s))) = Suc (length (requests s))"
        by simp_all
      show ?thesis
        using r n Response ok cls by auto
    qed
  qed
qed

text \<open>The theorem at a post answered with status 403.\<close>

theorem post_data_errors_witness:
  "b64decode posix_env (workspace_secret uploader0) = Some (utf8_encode ''c2VjcmV0'')
   \<and> fst (post_data (posix_env\<lparr>respond := \<lambda>n. Response 403\<rparr>) uploader0 ''[]'' ''Hosts'' io0)
       = Inl (upload_failed 403)
   \<and> length (requests (snd (post_data (posix_env\<lparr>respond := \<lambda>n. Response 403\<rparr>) uploader0
        ''[]'' ''Hosts'' io0))) = 1"
proof -
  let ?e = "posix_env\<lparr>respond := \<lambda>n. Response 403\<rparr>"
  have key: "b64decode ?e (workspace_secret uploader0) = Some (utf8_encode ''c2VjcmV0'')"
    by (simp add: posix_env_def uploader0_def)
  have out: "respond ?e (length (requests io0)) = Response 403 \<and> ((403::int) < 200 \<or> 299 < (403::int))"
    by simp
  from post_data_errors [OF key, of "''[]''" "''Hosts''" io0] out
  have "fst (post_data ?e uploader0 ''[]'' ''Hosts'' io0) = Inl (upload_failed 403)"
    and "length (requests (snd (post_data ?e uploader0 ''[]'' ''Hosts'' io0))) = Suc (length (requests io0))"
    by blast+
  then show ?thesis
    by (simp add: io0_def posix_env_def uploader0_def)
qed

text \<open>
  A failed connection and a rejected upload raise exceptions of the same class.
\<close>

theorem one_error_class_counterexample:
  "fst (post_data (posix_env\<lparr>respond := \<lambda>n. ConnectionError\<rparr>) uploader0 ''[]'' ''Hosts'' io0)
     = Inl connect_error
   \<and> fst (post_data (posix_env\<lparr>respond := \<lambda>n. Response 403\<rparr>) uploader0 ''[]'' ''Hosts'' io0)
     = Inl (upload_failed 403)
   \<and> exn_class connect_error = ''MsticpyConnectionError''
   \<and> exn_class (upload_failed 403) = ''MsticpyConnectionError''"
proof -
  have a: "fst (post_data (posix_env\<lparr>respond := \<lambda>n. ConnectionError\<rparr>) uploader0 ''[]'' ''Hosts'' io0)
     = Inl connect_error"
    by (rule post_data_no_connection(1) [where key = "utf8_encode (workspace_secret uploader0)"])
       (simp_all add: posix_env_def)
  have b: "fst (post_data (posix_env\<lparr>respond := \<lambda>n. Response 403\<rparr>) uploader0 ''[]'' ''Hosts'' io0)
     = Inl (upload_failed 403)"
    by (rule post_data_rejected(1) [where key = "utf8_encode (workspace_secret uploader0)"])
       (simp_all add: posix_env_def)
  show ?thesis using a b by (simp add: connect_error_def upload_failed_def)
qed

subsection \<open>A run that fails at its first post\<close>

text \<open>A frame of the one row \<open>{"c": "1"}\<close> is one batch.\<close>

lemma upload_rows_one_short_row:
  assumes "getsizeof_overhead e \<le> 1000"
  shows "upload_rows e self t [] [[(''c'', ''1'')]] s = (Inr [[(''c'', ''1'')]], s)"
proof -
  have "length (json_str ''c'') \<le> 8" "length (json_str ''1'') \<le> 8"
    using length_json_str_le [of "''c''"] length_json_str_le [of "''1''"] by simp_all
  with assms show ?thesis
    by (simp add: getsizeof_def length_json_dumps length_json_dict_single)
qed

lemma upload_df_one_short_row:
  assumes "getsizeof_overhead e \<le> 1000"
  shows "fst (upload_df e self [[(''c'', ''1'')]] t s)
           = fst (post_data e self (json_dumps [[(''c'', ''1'')]]) t s)"
    and "requests (snd (upload_df e self [[(''c'', ''1'')]] t s))
           = requests (snd (post_data e self (json_dumps [[(''c'', ''1'')]]) t s))"
  unfolding upload_df_def upload_rows_one_short_row [OF assms]
  by (auto split: prod.splits sum.splits)

lemma fnmatch_star [simp]: "fnmatch ''*'' n"
  by (induction n) auto

lemma fnmatch_star_csv_examples:
  "fnmatch ''*.csv'' ''hosts.csv''" "\<not> fnmatch ''*.csv'' ''notes.txt''" "fnmatch ''*.csv'' ''procs.csv''"
  by simp_all

text \<open>The theorem at a folder of two CSV files whose first post is answered with 403.\<close>

theorem fail_fast_witness:
  "\<not> accepted (respond (posix_env\<lparr>respond := \<lambda>n. Response 403\<rparr>) 0)
   \<and> glob (posix_env\<lparr>respond := \<lambda>n. Response 403\<rparr>) ''/logs'' ''*.csv''
       = [''/logs/hosts.csv'', ''/logs/procs.csv'']
   \<and> length (requests (snd (upload_folder (posix_env\<lparr>respond := \<lambda>n. Response 403\<rparr>) uploader0
        ''/logs'' None '','' io0))) = 1
   \<and> isl (fst (upload_folder (posix_env\<lparr>respond := \<lambda>n. Response 403\<rparr>) uploader0
        ''/logs'' None '','' io0))
   \<and> length (requests (snd (upload_df (posix_env\<lparr>respond := \<lambda>n. Response 403\<rparr>) uploader0
        [[(''c'', ''1'')]] ''Hosts'' io0))) = 1
   \<and> isl (fst (upload_df (posix_env\<lparr>respond := \<lambda>n. Response 403\<rparr>) uploader0
        [[(''c'', ''1'')]] ''Hosts'' io0))"
proof -
  let ?e = "posix_env\<lparr>respond := \<lambda>n. Response 403\<rparr>"
  let ?df = "upload_df ?e uploader0 [[(''c'', ''1'')]] ''Hosts'' io0"
  let ?fo = "upload_folder ?e uploader0 ''/logs'' None '','' io0"
  have ovh: "getsizeof_overhead ?e \<le> 1000" by (simp add: posix_env_def)
  have key: "b64decode ?e (workspace_secret uploader0) = Some (utf8_encode (workspace_secret uploader0))"
    by (simp add: posix_env_def)
  have na: "\<not> accepted (respond ?e 0)" by simp
  have gl: "glob ?e ''/logs'' ''*.csv'' = [''/logs/hosts.csv'', ''/logs/procs.csv'']"
    by (simp add: glob_def posix_env_def)
  have rd: "read_csv posix_env p '','' = Inr [[(''c'', ''1'')]]" for p
    by (simp add: posix_env_def)
  have io: "requests (io0\<lparr>progress := 0\<rparr>) = []" "requests io0 = []"
    by (simp_all add: io0_def)
  have one: "length (requests (snd (upload_df ?e uploader0 [[(''c'', ''1'')]] t s))) = Suc (length (requests s))" for t s
    unfolding upload_df_one_short_row(2) [OF ovh]
    by (rule post_data_rejected(2) [OF key, where code = 403]) simp_all
  have dfpos: "0 < length (requests (snd ?df))"
    using one [of "''Hosts''" io0] by simp
  have fopos: "0 < length (requests (snd ?fo))"
  proof -
    obtain r1 s1 where u1: "upload_df ?e uploader0 [[(''c'', ''1'')]] (table_name_of_path ''/logs/hosts.csv'')
        (io0\<lparr>progress := 0\<rparr>) = (r1, s1)"
      by (cases "upload_df ?e uploader0 [[(''c'', ''1'')]] (table_name_of_path ''/logs/hosts.csv'')
        (io0\<lparr>progress := 0\<rparr>)") auto
    have "fst (upload_df ?e uploader0 [[(''c'', ''1'')]] (table_name_of_path ''/logs/hosts.csv'')
        (io0\<lparr>progress := 0\<rparr>)) = Inl (upload_failed 403)"
      unfolding upload_df_one_short_row(1) [OF ovh]
      by (rule post_data_rejected(1) [OF key, where code = 403]) simp_all
    with u1 have r1: "r1 = Inl (upload_failed 403)" by simp
    from one [of "table_name_of_path ''/logs/hosts.csv''" "io0\<lparr>progress := 0\<rparr>"] u1 io
    have l1: "length (requests s1) = 1" by simp
    have "?fo = (Inl (upload_failed 403), s1)"
      unfolding upload_folder_def Let_def
      by (simp add: gl rd u1 r1 Let_def)
    with l1 show ?thesis by simp
  qed
  from fail_fast [of ?e uploader0 "[[(''c'', ''1'')]]" "''Hosts''" io0 "fst ?df" "snd ?df"
      "''/logs''" None "'',''" "fst ?fo" "snd ?fo"]
  have "\<forall>i. length (requests io0) \<le> i \<and> i < length (requests (snd ?df)) \<and> \<not> accepted (respond ?e i)
            \<longrightarrow> Suc i = length (requests (snd ?df)) \<and> isl (fst ?df)"
    and "\<forall>i. length (requests io0) \<le> i \<and> i < length (requests (snd ?fo)) \<and> \<not> accepted (respond ?e i)
            \<longrightarrow> Suc i = length (requests (snd ?fo)) \<and> isl (fst ?fo)"
    by simp_all
  from this(1) [rule_format, of 0] this(2) [rule_format, of 0] dfpos fopos io(2)
  have "Suc 0 = length (requests (snd ?df)) \<and> isl (fst ?df)"
    and "Suc 0 = length (requests (snd ?fo)) \<and> isl (fst ?fo)"
    by simp_all
  with na gl show ?thesis by simp
qed

subsection \<open>The signature\<close>

lemma digit_char_range: "d < 10 \<Longrightarrow> of_char (digit_char d) = 48 + d"
  by (simp add: digit_char_def)

lemma str_nat_digits: "c \<in> set (str_nat n) \<Longrightarrow> 48 \<le> (of_char c :: nat) \<and> (of_char c :: nat) \<le> 57"
proof (induction n arbitrary: c rule: str_nat.induct)
  case (1 n)
  show ?case
  proof (cases "n < 10")
    case True
    with "1.prems" have "c = digit_char n" by (simp add: str_nat.simps [of n])
    with True show ?thesis by (simp add: digit_char_range)
  next
    case False
    with "1.prems" have "c \<in> set (str_nat (n div 10)) \<or> c = digit_char (n mod 10)"
      by (auto simp: str_nat.simps [of n])
    then show ?thesis
    proof
      assume "c \<in> set (str_nat (n div 10))"
      with "1.IH" False show ?thesis by simp
    next
      assume "c = digit_char (n mod 10)"
      then show ?thesis by (simp add: digit_char_range)
    qed
  qed
qed

lemma decimal_value_str_nat: "decimal_value (str_nat n) = n"
proof (induction n rule: str_nat.induct)
  case (1 n)
  show ?case
  proof (cases "n < 10")
    case True
    then show ?thesis
      by (simp add: str_nat.simps [of n] decimal_value_def digit_char_range)
  next
    case False
    with "1.IH" have "decimal_value (str_nat (n div 10)) = n div 10" by simp
    with False show ?thesis
      by (simp add: str_nat.simps [of n] decimal_value_def digit_char_range)
  qed
qed

lemma py_split_no_sep: "sep \<notin> set a \<Longrightarrow> py_split sep a = [a]"
  by (induction a) auto

lemma py_split_append: "sep \<notin> set a \<Longrightarrow> py_split sep (a @ sep # b) = a # py_split sep b"
  by (induction a) auto

lemma newline_not_digit: "newline \<notin> set (str_nat n)"
proof
  assume "newline \<in> set (str_nat n)"
  from str_nat_digits [OF this] show False by (simp add: newline_def)
qed

text \<open>
  C3.  With a secret that decodes to \<open>key\<close> and a content length that is not negative,
  \<open>_build_signature\<close> returns \<open>SharedKey\<close>, a space, the workspace, a colon and the
  base64 text of the HMAC-SHA256 under \<open>key\<close> of the UTF-8 bytes of the canonical string:
  the method, the content length in decimal digits, the content type, \<open>x-ms-date:\<close> with
  the date, and the resource, joined with newlines in this order.  Split at its newlines the
  canonical string gives back these five fields, so nothing follows the resource.  The
  result is a function of the arguments alone.
\<close>

theorem build_signature_value:
  assumes "b64decode e (workspace_secret self) = Some key" and "0 \<le> n"
  shows "build_signature e self date n method content_type resource
           = Inr (''SharedKey '' @ workspace self @ '':''
                  @ b64encode e (hmac_sha256 e key (utf8_encode
                      (join [newline] [method, str_int n, content_type, ''x-ms-date:'' @ date, resource]))))
     \<and> (\<forall>c\<in>set (str_int n). 48 \<le> (of_char c :: nat) \<and> (of_char c :: nat) \<le> 57)
     \<and> decimal_value (str_int n) = nat n
     \<and> (newline \<notin> set method \<union> set content_type \<union> set date \<union> set resource \<longrightarrow>
          py_split newline
            (join [newline] [method, str_int n, content_type, ''x-ms-date:'' @ date, resource])
          = [method, str_int n, content_type, ''x-ms-date:'' @ date, resource])"
proof (intro conjI impI ballI)
  show "build_signature e self date n method content_type resource
           = Inr (''SharedKey '' @ workspace self @ '':''
                  @ b64encode e (hmac_sha256 e key (utf8_encode
                      (join [newline] [method, str_int n, content_type, ''x-ms-date:'' @ date, resource]))))"
    using assms(1) by (simp add: build_signature_def Let_def)
next
  fix c assume "c \<in> set (str_int n)"
  with assms(2) have "c \<in> set (str_nat (nat n))" by (simp add: str_int_def)
  then show "48 \<le> (of_char c :: nat)" "(of_char c :: nat) \<le> 57"
    using str_nat_digits by blast+
next
  show "decimal_value (str_int n) = nat n"
    using assms(2) by (simp add: str_int_def decimal_value_str_nat)
next
  assume nl: "newline \<notin> set method \<union> set content_type \<union> set date \<union> set resource"
  have s: "str_int n = str_nat (nat n)" using assms(2) by (simp add: str_int_def)
  define x where "x = ''x-ms-date:'' @ date"
  have d: "newline \<notin> set x"
    using nl by (simp add: newline_def x_def)
  have m: "newline \<notin> set method" and c: "newline \<notin> set content_type"
    and r: "newline \<notin> set resource"
    using nl by simp_all
  have j: "join [newline] [method, str_nat (nat n), content_type, x, resource]
      = method @ newline # str_nat (nat n) @ newline # content_type @ newline # x @ newline # resource"
    by simp
  have "py_split newline (join [newline] [method, str_nat (nat n), content_type, x, resource])
          = [method, str_nat (nat n), content_type, x, resource]"
    unfolding j
    by (simp only: py_split_append [OF m] py_split_append [OF newline_not_digit]
        py_split_append [OF c] py_split_append [OF d] py_split_no_sep [OF r])
  then show "py_split newline
            (join [newline] [method, str_int n, content_type, ''x-ms-date:'' @ date, resource])
          = [method, str_int n, content_type, ''x-ms-date:'' @ date, resource]"
    unfolding s x_def .
qed

text \<open>The theorem at the arguments \<open>_post_data\<close> passes for a body of two characters.\<close>

theorem build_signature_value_witness:
  "b64decode posix_env (workspace_secret uploader0) = Some (utf8_encode ''c2VjcmV0'')
   \<and> (0::int) \<le> 2
   \<and> build_signature posix_env uploader0 ''Mon, 01 Jan 2024 00:00:00 GMT'' 2 ''POST''
        ''application/json'' ''/api/logs''
       = Inr (''SharedKey ws:''
              @ b64encode posix_env (hmac_sha256 posix_env (utf8_encode ''c2VjcmV0'') (utf8_encode
                  (''POST'' @ [newline] @ ''2'' @ [newline] @ ''application/json'' @ [newline]
                     @ ''x-ms-date:Mon, 01 Jan 2024 00:00:00 GMT'' @ [newline] @ ''/api/logs''))))
   \<and> py_split newline (''POST'' @ [newline] @ ''2'' @ [newline] @ ''application/json'' @ [newline]
                     @ ''x-ms-date:Mon, 01 Jan 2024 00:00:00 GMT'' @ [newline] @ ''/api/logs'')
       = [''POST'', ''2'', ''application/json'', ''x-ms-date:Mon, 01 Jan 2024 00:00:00 GMT'', ''/api/logs'']"
proof -
  have key: "b64decode posix_env (workspace_secret uploader0) = Some (utf8_encode ''c2VjcmV0'')"
    by (simp add: posix_env_def uploader0_def)
  have n: "(0::int) \<le> 2" by simp
  have "char_of (50::nat) = CHR ''2''"
    by code_simp
  then have two: "str_int 2 = ''2''"
    by (simp add: str_int_def str_nat.simps [of 2] digit_char_def)
  have nl: "newline \<notin> set ''POST'' \<union> set ''application/json''
      \<union> set ''Mon, 01 Jan 2024 00:00:00 GMT'' \<union> set ''/api/logs''"
    by (simp add: newline_def)
  have ws: "workspace uploader0 = ''ws''" by (simp add: uploader0_def)
  from build_signature_value [OF key n, of "''Mon, 01 Jan 2024 00:00:00 GMT''" "''POST''"
      "''application/json''" "''/api/logs''"] nl
  have "build_signature posix_env uploader0 ''Mon, 01 Jan 2024 00:00:00 GMT'' 2 ''POST''
        ''application/json'' ''/api/logs''
       = Inr (''SharedKey '' @ workspace uploader0 @ '':''
              @ b64encode posix_env (hmac_sha256 posix_env (utf8_encode ''c2VjcmV0'') (utf8_encode
                  (join [newline] [''POST'', str_int 2, ''application/json'',
                       ''x-ms-date:'' @ ''Mon, 01 Jan 2024 00:00:00 GMT'', ''/api/logs'']))))"
    and "py_split newline (join [newline] [''POST'', str_int 2, ''application/json'',
                       ''x-ms-date:'' @ ''Mon, 01 Jan 2024 00:00:00 GMT'', ''/api/logs''])
       = [''POST'', str_int 2, ''application/json'',
            ''x-ms-date:'' @ ''Mon, 01 Jan 2024 00:00:00 GMT'', ''/api/logs'']"
    by blast+
  with key n show ?thesis
    by (simp add: two ws)
qed

subsection \<open>Runs in which every post is accepted\<close>

lemma post_data_accepting:
  assumes "b64decode e (workspace_secret self) = Some key"
    and "accepted (respond e (length (requests s)))"
  shows "fst (post_data e self body t s) = Inr ()"
proof (cases "respond e (length (requests s))")
  case ConnectionError
  with assms(2) show ?thesis by simp
next
  case (Response code)
  with assms(2) have "200 \<le> code" "code \<le> 299" by simp_all
  from post_data_accepted(1) [OF assms(1) Response this] show ?thesis .
qed

lemma upload_rows_accepting:
  assumes "b64decode e (workspace_secret self) = Some key" and "\<forall>n. accepted (respond e n)"
  shows "\<not> isl (fst (upload_rows e self t ev rows s))"
proof (induction rows arbitrary: ev s)
  case Nil
  show ?case by simp
next
  case (Cons r rs)
  show ?case
  proof (cases "over_ceiling e (ev @ [r])")
    case False
    with Cons.IH show ?thesis by (simp add: over_ceiling_def)
  next
    case True
    let ?s1 = "if debug self
               then s\<lparr>stdout := stdout s @ [''Data larger than 25MB spliting data requests.'']\<rparr>
               else s"
    from assms(2) have "accepted (respond e (length (requests ?s1)))" by blast
    from post_data_accepting [OF assms(1) this]
    obtain s2 where "post_data e self (json_dumps (ev @ [r])) t ?s1 = (Inr (), s2)"
      by (metis prod.collapse)
    with True Cons.IH [of "[]" s2] show ?thesis
      by (simp add: over_ceiling_def Let_def)
  qed
qed

lemma upload_df_accepting:
  assumes "b64decode e (workspace_secret self) = Some key" and "\<forall>n. accepted (respond e n)"
  shows "\<exists>s'. upload_df e self rows t s = (Inr (), s')
          \<and> length (requests s) \<le> length (requests s')
          \<and> map (header ''Log-Type'') (drop (length (requests s)) (requests s'))
              = replicate (length (batches e [] rows)) (Some (re_sub_nonword t))"
proof -
  obtain res s' where run: "upload_df e self rows t s = (res, s')"
    by (cases "upload_df e self rows t s") auto
  have ok: "\<not> isl res"
  proof -
    obtain lres s1 where lp: "upload_rows e self t [] rows s = (lres, s1)"
      by (cases "upload_rows e self t [] rows s") auto
    with upload_rows_accepting [OF assms, of t "[]" rows s] obtain ev' where lres: "lres = Inr ev'"
      by (cases lres) auto
    show ?thesis
    proof (cases "ev' = []")
      case True
      with run lp lres show ?thesis by (auto simp: upload_df_def)
    next
      case False
      from assms(2) have "accepted (respond e (length (requests s1)))" by blast
      from post_data_accepting [OF assms(1) this]
      obtain s2 where "post_data e self (json_dumps ev') t s1 = (Inr (), s2)"
        by (metis prod.collapse)
      with run lp lres False show ?thesis by (auto simp: upload_df_def)
    qed
  qed
  from upload_df_trace [OF run] ok obtain rqs where rqs:
    "requests s' = requests s @ rqs"
    "\<forall>rq\<in>set rqs. header ''Log-Type'' rq = Some (re_sub_nonword t)"
    "length rqs = length (batches e [] rows)"
    by blast
  have "map (header ''Log-Type'') rqs = replicate (length rqs) (Some (re_sub_nonword t))"
    using rqs(2) by (induction rqs) auto
  with rqs ok run show ?thesis by (cases res) auto
qed

text \<open>
  The files of a folder, when every file can be read and every post is accepted: each file
  is sent, in the order of the listing, under the name supplied by the caller if there is
  one, and otherwise under the name computed from its own path.
\<close>

lemma upload_paths_accepting:
  assumes "b64decode e (workspace_secret self) = Some key" and "\<forall>n. accepted (respond e n)"
    and "\<forall>p\<in>set paths. read_csv e p delim = Inr (frame p)"
  shows "\<exists>s'. upload_paths e self t_name table_name delim paths s = (Inr (), s')
          \<and> length (requests s) \<le> length (requests s')
          \<and> map (header ''Log-Type'') (drop (length (requests s)) (requests s'))
              = concat (map (\<lambda>p. replicate (length (batches e [] (frame p)))
                    (Some (re_sub_nonword (if t_name = False then table_name_of_path p
                                           else name_of table_name)))) paths)"
  using assms(3)
proof (induction paths arbitrary: table_name s)
  case Nil
  show ?case by simp
next
  case (Cons p ps)
  define tn where "tn = (if t_name = False then table_name_of_path p else name_of table_name)"
  from Cons.prems have rd: "read_csv e p delim = Inr (frame p)"
    and rest: "\<forall>p\<in>set ps. read_csv e p delim = Inr (frame p)"
    by simp_all
  from upload_df_accepting [OF assms(1,2), of "frame p" tn s] obtain s1 where s1:
    "upload_df e self (frame p) tn s = (Inr (), s1)"
    "length (requests s) \<le> length (requests s1)"
    "map (header ''Log-Type'') (drop (length (requests s)) (requests s1))
       = replicate (length (batches e [] (frame p))) (Some (re_sub_nonword tn))"
    by blast
  let ?s1 = "s1\<lparr>progress := progress s1 + 1\<rparr>"
  from Cons.IH [OF rest, of "Some tn" ?s1] obtain s' where s':
    "upload_paths e self t_name (Some tn) delim ps ?s1 = (Inr (), s')"
    "length (requests ?s1) \<le> length (requests s')"
    "map (header ''Log-Type'') (drop (length (requests ?s1)) (requests s'))
       = concat (map (\<lambda>p. replicate (length (batches e [] (frame p)))
             (Some (re_sub_nonword (if t_name = False then table_name_of_path p
                                    else name_of (Some tn))))) ps)"
    by blast
  have same: "(if t_name = False then table_name_of_path q else name_of (Some tn))
      = (if t_name = False then table_name_of_path q else name_of table_name)" for q
    by (simp add: tn_def)
  have run: "upload_paths e self t_name table_name delim (p # ps) s = (Inr (), s')"
    using rd s1(1) s'(1) by (simp add: tn_def Let_def)
  have split: "drop (length (requests s)) (requests s')
      = drop (length (requests s)) (requests s1) @ drop (length (requests s1)) (requests s')"
  proof -
    obtain a where a: "requests s1 = requests s @ a"
      using upload_df_trace [OF s1(1)] by blast
    obtain b where b: "requests s' = requests ?s1 @ b"
      using upload_paths_trace [OF s'(1)] by blast
    from a b show ?thesis by simp
  qed
  show ?case
    apply (intro exI [of _ s'] conjI)
    subgoal using run .
    subgoal using s1(2) s'(2) by simp
    subgoal using s1(3) s'(3) unfolding split same by (simp add: tn_def)
    done
qed

subsection \<open>File names and table names\<close>

lemma fnmatch_literal: "CHR ''*'' \<notin> set ps \<Longrightarrow> fnmatch ps n \<longleftrightarrow> n = ps"
  by (induction ps n rule: fnmatch.induct) auto

lemma fnmatch_star_prefix: "fnmatch (CHR ''*'' # ps) n \<longleftrightarrow> (\<exists>a b. n = a @ b \<and> fnmatch ps b)"
proof (induction n)
  case Nil
  show ?case by simp
next
  case (Cons c cs)
  show ?case
  proof
    assume "fnmatch (CHR ''*'' # ps) (c # cs)"
    then consider "fnmatch ps (c # cs)" | "fnmatch (CHR ''*'' # ps) cs" by auto
    then show "\<exists>a b. c # cs = a @ b \<and> fnmatch ps b"
    proof cases
      case 1
      then show ?thesis by (rule_tac x = "[]" in exI) simp
    next
      case 2
      with Cons.IH obtain a b where "cs = a @ b" "fnmatch ps b" by auto
      then show ?thesis by (rule_tac x = "c # a" in exI, rule_tac x = b in exI) simp
    qed
  next
    assume "\<exists>a b. c # cs = a @ b \<and> fnmatch ps b"
    then obtain a b where ab: "c # cs = a @ b" "fnmatch ps b" by auto
    show "fnmatch (CHR ''*'' # ps) (c # cs)"
    proof (cases a)
      case Nil
      with ab have "fnmatch ps (c # cs)" by simp
      then show ?thesis by simp
    next
      case (Cons a1 as)
      with ab have "cs = as @ b" by simp
      with ab(2) Cons.IH have "fnmatch (CHR ''*'' # ps) cs" by auto
      then show ?thesis by simp
    qed
  qed
qed

lemma fnmatch_csv: "fnmatch ''*.csv'' n \<longleftrightarrow> (\<exists>a. n = a @ ''.csv'')"
proof -
  have "CHR ''*'' \<notin> set ''.csv''" by simp
  from fnmatch_literal [OF this] show ?thesis
    unfolding fnmatch_star_prefix by auto
qed

text \<open>The pattern of \<open>upload_folder\<close> selects the names that end in \<open>.csv\<close> for the
  default delimiter and every name for any other delimiter.\<close>

lemma upload_folder_selection:
  "glob e folder_path (if delim \<noteq> '','' then ''*'' else ''*.csv'')
     = map (joinpath e folder_path)
         (filter (\<lambda>n. delim \<noteq> '','' \<or> (\<exists>a. n = a @ ''.csv'')) (listdir e folder_path))"
proof -
  have "fnmatch ''*.csv'' = (\<lambda>n. \<exists>a. n = a @ ''.csv'')"
    by (rule ext) (rule fnmatch_csv)
  then show ?thesis
    by (simp add: glob_def)
qed

lemma hd_py_split: "hd (py_split sep s) = takeWhile (\<lambda>c. c \<noteq> sep) s"
  by (induction s) (auto simp: py_split_nonempty split: list.splits)

lemma py_split_at_sep: "py_split sep (a @ sep # b) = py_split sep a @ py_split sep b"
proof (induction a)
  case Nil
  show ?case by simp
next
  case (Cons c cs)
  obtain w ws where w: "py_split sep cs = w # ws"
    using py_split_nonempty [of sep cs] by (cases "py_split sep cs") auto
  with Cons show ?case by simp
qed

lemma last_py_split_append: "last (py_split sep (a @ sep # b)) = last (py_split sep b)"
  by (simp add: py_split_at_sep py_split_nonempty)

lemma last_py_split_no_sep: "sep \<notin> set s \<Longrightarrow> last (py_split sep s) = s"
  by (simp add: py_split_no_sep)

text \<open>With backslashes as separators the directories are dropped; without a backslash in
  the path nothing is dropped but what follows the first dot.\<close>

lemma table_name_of_backslash_path:
  "backslash \<notin> set name \<Longrightarrow>
   table_name_of_path (dir @ backslash # name) = takeWhile (\<lambda>c. c \<noteq> CHR ''.'') name"
  by (simp add: table_name_of_path_def last_py_split_append last_py_split_no_sep hd_py_split)

lemma table_name_of_path_no_backslash:
  "backslash \<notin> set p \<Longrightarrow> table_name_of_path p = takeWhile (\<lambda>c. c \<noteq> CHR ''.'') p"
  by (simp add: table_name_of_path_def last_py_split_no_sep hd_py_split)

lemma batches_one_short_row:
  assumes "getsizeof_overhead e \<le> 1000"
  shows "batches e [] [[(''c'', ''1'')]] = [[[(''c'', ''1'')]]]"
proof -
  have "length (json_str ''c'') \<le> 8" "length (json_str ''1'') \<le> 8"
    using length_json_str_le [of "''c''"] length_json_str_le [of "''1''"] by simp_all
  with assms show ?thesis
    by (simp add: over_ceiling_def getsizeof_def length_json_dumps length_json_dict_single)
qed

lemma posix_env_accepting:
  "b64decode posix_env (workspace_secret uploader0) = Some (utf8_encode (workspace_secret uploader0))"
  "\<forall>n. accepted (respond posix_env n)"
  "getsizeof_overhead posix_env \<le> 1000"
  "read_csv posix_env p delim = Inr [[(''c'', ''1'')]]"
  "str_Path posix_env p = p"
  by (simp_all add: posix_env_def)

text \<open>
  C7.  The code on a POSIX path: \<open>str(Path("/data/hosts.csv"))\<close> has no backslash, so the
  split at backslashes keeps the directories, the derived table name is \<open>/data/hosts\<close>,
  and the rows of \<open>hosts.csv\<close> are posted with the header \<open>Log-Type: datahosts\<close>.
\<close>

theorem table_name_of_posix_path:
  "str_Path posix_env ''/data/hosts.csv'' = ''/data/hosts.csv''
   \<and> table_name_of_path ''/data/hosts.csv'' = ''/data/hosts''
   \<and> fst (upload_file posix_env uploader0 ''/data/hosts.csv'' None '','' io0) = Inr ()
   \<and> map (header ''Log-Type'')
        (requests (snd (upload_file posix_env uploader0 ''/data/hosts.csv'' None '','' io0)))
       = [Some ''datahosts'']"
proof -
  have tn: "table_name_of_path ''/data/hosts.csv'' = ''/data/hosts''"
    by (simp add: table_name_of_path_no_backslash backslash_def)
  have sn: "re_sub_nonword ''/data/hosts'' = ''datahosts''"
    unfolding re_sub_nonword_filter by (simp add: word_char_def)
  from upload_df_accepting [OF posix_env_accepting(1,2), of "[[(''c'', ''1'')]]" "''/data/hosts''" io0]
  obtain s' where s': "upload_df posix_env uploader0 [[(''c'', ''1'')]] ''/data/hosts'' io0 = (Inr (), s')"
    "map (header ''Log-Type'') (drop (length (requests io0)) (requests s'))
       = replicate (length (batches posix_env [] [[(''c'', ''1'')]])) (Some (re_sub_nonword ''/data/hosts''))"
    by blast
  have run: "upload_file posix_env uploader0 ''/data/hosts.csv'' None '','' io0 = (Inr (), s')"
    by (simp add: upload_file_def posix_env_accepting tn s'(1))
  from s'(2) [unfolded batches_one_short_row [OF posix_env_accepting(3)] sn]
  have "map (header ''Log-Type'') (requests s') = [Some ''datahosts'']"
    by (simp add: io0_def)
  with run tn show ?thesis
    by (simp add: posix_env_accepting)
qed

text \<open>
  C8.  The code on POSIX folders holding \<open>hosts.csv\<close>, \<open>notes.txt\<close> and \<open>procs.csv\<close>,
  with the default delimiter and no table name: the two CSV files are selected; under
  \<open>/logs\<close> they are posted as \<open>logshosts\<close> and \<open>logsprocs\<close>, and under \<open>/my.logs\<close>
  both are posted as \<open>my\<close>.
\<close>

theorem upload_folder_posix_names:
  "glob posix_env ''/logs'' ''*.csv'' = [''/logs/hosts.csv'', ''/logs/procs.csv'']
   \<and> fst (upload_folder posix_env uploader0 ''/logs'' None '','' io0) = Inr ()
   \<and> map (header ''Log-Type'')
        (requests (snd (upload_folder posix_env uploader0 ''/logs'' None '','' io0)))
       = [Some ''logshosts'', Some ''logsprocs'']
   \<and> glob posix_env ''/my.logs'' ''*.csv'' = [''/my.logs/hosts.csv'', ''/my.logs/procs.csv'']
   \<and> fst (upload_folder posix_env uploader0 ''/my.logs'' None '','' io0) = Inr ()
   \<and> map (header ''Log-Type'')
        (requests (snd (upload_folder posix_env uploader0 ''/my.logs'' None '','' io0)))
       = [Some ''my'', Some ''my'']"
proof -
  let ?s0 = "io0\<lparr>progress := 0\<rparr>"
  have s0: "requests ?s0 = []" by (simp add: io0_def)
  have b1: "length (batches posix_env [] [[(''c'', ''1'')]]) = 1"
    by (simp add: batches_one_short_row [OF posix_env_accepting(3)])
  have rd: "\<forall>p\<in>set ps. read_csv posix_env p '','' = Inr [[(''c'', ''1'')]]" for ps
    by (simp add: posix_env_accepting)
  have names: "table_name_of_path ''/logs/hosts.csv'' = ''/logs/hosts''"
    "table_name_of_path ''/logs/procs.csv'' = ''/logs/procs''"
    "table_name_of_path ''/my.logs/hosts.csv'' = ''/my''"
    "table_name_of_path ''/my.logs/procs.csv'' = ''/my''"
    by (simp_all add: table_name_of_path_no_backslash backslash_def)
  have sn: "re_sub_nonword ''/logs/hosts'' = ''logshosts''"
    "re_sub_nonword ''/logs/procs'' = ''logsprocs''"
    "re_sub_nonword ''/my'' = ''my''"
    unfolding re_sub_nonword_filter by (simp_all add: word_char_def)
  have g1: "glob posix_env ''/logs'' ''*.csv'' = [''/logs/hosts.csv'', ''/logs/procs.csv'']"
    by (simp add: glob_def posix_env_def)
  have g2: "glob posix_env ''/my.logs'' ''*.csv'' = [''/my.logs/hosts.csv'', ''/my.logs/procs.csv'']"
    by (simp add: glob_def posix_env_def)
  from upload_paths_accepting [where e = posix_env and self = uploader0 and delim = "'',''"
      and paths = "[''/logs/hosts.csv'', ''/logs/procs.csv'']"
      and frame = "\<lambda>p. [[(''c'', ''1'')]]" and t_name = False and table_name = None and s = ?s0,
      OF posix_env_accepting(1,2) rd, unfolded b1 s0]
  obtain s1 where s1:
    "upload_paths posix_env uploader0 False None '','' [''/logs/hosts.csv'', ''/logs/procs.csv''] ?s0
       = (Inr (), s1)"
    "map (header ''Log-Type'') (requests s1) = [Some ''logshosts'', Some ''logsprocs'']"
    by (auto simp: names sn simp del: re_sub_nonword.simps)
  from upload_paths_accepting [where e = posix_env and self = uploader0 and delim = "'',''"
      and paths = "[''/my.logs/hosts.csv'', ''/my.logs/procs.csv'']"
      and frame = "\<lambda>p. [[(''c'', ''1'')]]" and t_name = False and table_name = None and s = ?s0,
      OF posix_env_accepting(1,2) rd, unfolded b1 s0]
  obtain s2 where s2:
    "upload_paths posix_env uploader0 False None '','' [''/my.logs/hosts.csv'', ''/my.logs/procs.csv''] ?s0
       = (Inr (), s2)"
    "map (header ''Log-Type'') (requests s2) = [Some ''my'', Some ''my'']"
    by (auto simp: names sn simp del: re_sub_nonword.simps)
  have r1: "upload_folder posix_env uploader0 ''/logs'' None '','' io0 = (Inr (), s1)"
    by (simp add: upload_folder_def g1 s1(1) del: upload_paths.simps)
  have r2: "upload_folder posix_env uploader0 ''/my.logs'' None '','' io0 = (Inr (), s2)"
    by (simp add: upload_folder_def g2 s2(1) del: upload_paths.simps)
  show ?thesis
    using g1 g2 r1 r2 s1(2) s2(2) by simp
qed

section \<open>Properties of the IntSights parser\<close>

lemma parse_results_not_found:
  "failed_response response \<Longrightarrow>
   parse_results failed_response strptime response = Inr (False, information, Text ''Not found.'')"
  by (simp add: parse_results_def)

lemma parse_results_not_dict:
  "map_of response ''RawResult'' = Some v \<Longrightarrow> \<forall>d. v \<noteq> JDict d \<Longrightarrow>
   parse_results failed_response strptime response = Inr (False, information, Text ''Not found.'')"
  by (cases v) (simp_all add: parse_results_def getitem_def)

lemma parse_results_whitelisted:
  "\<not> failed_response response \<Longrightarrow> map_of response ''RawResult'' = Some (JDict raw) \<Longrightarrow>
   truthy (dict_get raw ''whitelisted'' (JBool False)) \<Longrightarrow>
   parse_results failed_response strptime response = Inr (False, information, Text ''Whitelisted.'')"
  by (simp add: parse_results_def getitem_def)

lemma parse_results_matched:
  assumes "\<not> failed_response response" "map_of response ''RawResult'' = Some (JDict raw)"
    "\<not> truthy (dict_get raw ''whitelisted'' (JBool False))"
    "parse_results failed_response strptime response = Inr (m, sev, d)"
  shows "m = True \<and> (\<exists>rd. d = Details rd)
     \<and> sev = (let s = dict_get raw ''severity'' (JStr ''Low'')
              in if s = JStr ''Low'' then information
                 else if s = JStr ''Medium'' then warning
                 else if s = JStr ''High'' then high
                 else unknown)"
  using assms
  by (simp add: parse_results_def getitem_def Let_def split: sum.splits) auto

lemma parse_results_total_on_dated:
  assumes "\<not> failed_response response" "map_of response ''RawResult'' = Some (JDict raw)"
    "\<not> truthy (dict_get raw ''whitelisted'' (JBool False))"
    "map_of response ''Status'' = Some status"
    "py_add (dict_get raw ''tags'' (JList [])) (dict_get raw ''SystemTags'' (JList [])) = Inr tgs"
    "py_strptime strptime (dict_get raw ''firstSeen'' JNull) = Inr t1"
    "py_strptime strptime (dict_get raw ''lastSeen'' JNull) = Inr t2"
    "py_strptime strptime (dict_get raw ''lastUpdateDate'' JNull) = Inr t3"
  shows "\<exists>sev rd. parse_results failed_response strptime response = Inr (True, sev, Details rd)
     \<and> first_seen rd = t1 \<and> last_seen rd = t2 \<and> last_update rd = t3 \<and> response_code rd = status"
  using assms
  by (simp add: parse_results_def getitem_def Let_def)

text \<open>
  C9.  A failed response, and one whose \<open>RawResult\<close> is not a dictionary, give
  \<open>(False, information, "Not found.")\<close>; a whitelisted one gives
  \<open>(False, information, "Whitelisted.")\<close>; any other response that is parsed without an
  exception gives \<open>True\<close>, the details, and the severity \<open>information\<close> for \<open>Low\<close> (also
  when no severity is reported), \<open>warning\<close> for \<open>Medium\<close>, \<open>high\<close> for \<open>High\<close> and
  \<open>unknown\<close> for anything else; and a response with a status, tags that can be added and
  three dates that parse is parsed without an exception.
\<close>

theorem parse_results_severity:
  "(failed_response response \<or> (\<exists>v. map_of response ''RawResult'' = Some v \<and> (\<forall>d. v \<noteq> JDict d))
      \<longrightarrow> parse_results failed_response strptime response
            = Inr (False, information, Text ''Not found.''))
   \<and> (\<not> failed_response response \<and> map_of response ''RawResult'' = Some (JDict raw)
        \<and> truthy (dict_get raw ''whitelisted'' (JBool False))
      \<longrightarrow> parse_results failed_response strptime response
            = Inr (False, information, Text ''Whitelisted.''))
   \<and> (\<not> failed_response response \<and> map_of response ''RawResult'' = Some (JDict raw)
        \<and> \<not> truthy (dict_get raw ''whitelisted'' (JBool False))
        \<and> parse_results failed_response strptime response = Inr (m, sev, d)
      \<longrightarrow> m = True \<and> (\<exists>rd. d = Details rd)
          \<and> (dict_get raw ''severity'' (JStr ''Low'') = JStr ''Low'' \<longrightarrow> sev = information)
          \<and> (dict_get raw ''severity'' (JStr ''Low'') = JStr ''Medium'' \<longrightarrow> sev = warning)
          \<and> (dict_get raw ''severity'' (JStr ''Low'') = JStr ''High'' \<longrightarrow> sev = high)
          \<and> (dict_get raw ''severity'' (JStr ''Low'') \<notin> {JStr ''Low'', JStr ''Medium'', JStr ''High''}
                \<longrightarrow> sev = unknown))
   \<and> (\<not> failed_response response \<and> map_of response ''RawResult'' = Some (JDict raw)
        \<and> \<not> truthy (dict_get raw ''whitelisted'' (JBool False))
        \<and> map_of response ''Status'' = Some status
        \<and> py_add (dict_get raw ''tags'' (JList [])) (dict_get raw ''SystemTags'' (JList [])) = Inr tgs
        \<and> py_strptime strptime (dict_get raw ''firstSeen'' JNull) = Inr t1
        \<and> py_strptime strptime (dict_get raw ''lastSeen'' JNull) = Inr t2
        \<and> py_strptime strptime (dict_get raw ''lastUpdateDate'' JNull) = Inr t3
      \<longrightarrow> (\<exists>sv rd. parse_results failed_response strptime response = Inr (True, sv, Details rd)))"
proof (intro conjI impI)
  assume "failed_response response \<or> (\<exists>v. map_of response ''RawResult'' = Some v \<and> (\<forall>d. v \<noteq> JDict d))"
  then show "parse_results failed_response strptime response
            = Inr (False, information, Text ''Not found.'')"
    using parse_results_not_found parse_results_not_dict by blast
next
  assume "\<not> failed_response response \<and> map_of response ''RawResult'' = Some (JDict raw)
        \<and> truthy (dict_get raw ''whitelisted'' (JBool False))"
  then show "parse_results failed_response strptime response
            = Inr (False, information, Text ''Whitelisted.'')"
    using parse_results_whitelisted by blast
next
  assume a: "\<not> failed_response response \<and> map_of response ''RawResult'' = Some (JDict raw)
        \<and> \<not> truthy (dict_get raw ''whitelisted'' (JBool False))
        \<and> parse_results failed_response strptime response = Inr (m, sev, d)"
  then have *: "m = True \<and> (\<exists>rd. d = Details rd)
     \<and> sev = (let s = dict_get raw ''severity'' (JStr ''Low'')
              in if s = JStr ''Low'' then information
                 else if s = JStr ''Medium'' then warning
                 else if s = JStr ''High'' then high
                 else unknown)"
    using parse_results_matched [of failed_response response raw strptime m sev d] by blast
  from * show "m = True" by simp
  from * show "\<exists>rd. d = Details rd" by simp
  from * show "sev = information" if "dict_get raw ''severity'' (JStr ''Low'') = JStr ''Low''"
    using that by simp
  from * show "sev = warning" if "dict_get raw ''severity'' (JStr ''Low'') = JStr ''Medium''"
    using that by simp
  from * show "sev = high" if "dict_get raw ''severity'' (JStr ''Low'') = JStr ''High''"
    using that by simp
  from * show "sev = unknown"
    if "dict_get raw ''severity'' (JStr ''Low'') \<notin> {JStr ''Low'', JStr ''Medium'', JStr ''High''}"
    using that by (simp add: Let_def)
next
  assume "\<not> failed_response response \<and> map_of response ''RawResult'' = Some (JDict raw)
        \<and> \<not> truthy (dict_get raw ''whitelisted'' (JBool False))
        \<and> map_of response ''Status'' = Some status
        \<and> py_add (dict_get raw ''tags'' (JList [])) (dict_get raw ''SystemTags'' (JList [])) = Inr tgs
        \<and> py_strptime strptime (dict_get raw ''firstSeen'' JNull) = Inr t1
        \<and> py_strptime strptime (dict_get raw ''lastSeen'' JNull) = Inr t2
        \<and> py_strptime strptime (dict_get raw ''lastUpdateDate'' JNull) = Inr t3"
  then show "\<exists>sv rd. parse_results failed_response strptime response = Inr (True, sv, Details rd)"
    using parse_results_total_on_dated [of failed_response response raw status tgs strptime t1 t2 t3]
    by blast
qed

lemma dated_response_facts:
  "\<not> status_failed dated_response"
  "map_of dated_response ''RawResult''
     = Some (JDict [(''severity'', JStr ''High''),
                    (''firstSeen'', JStr ''2021-03-04T05:06:07.000Z''),
                    (''lastSeen'', JStr ''2021-03-05T05:06:07.000Z''),
                    (''lastUpdateDate'', JStr ''2021-03-06T05:06:07.000Z'')])"
  "map_of dated_response ''Status'' = Some (JInt 200)"
  by (simp_all add: dated_response_def status_failed_def)

text \<open>The theorem at the dated hit of high severity.\<close>

theorem parse_results_severity_witness:
  "\<not> status_failed dated_response
   \<and> (\<exists>rd. parse_results status_failed Some dated_response = Inr (True, high, Details rd))"
proof -
  let ?raw = "[(''severity'', JStr ''High''),
               (''firstSeen'', JStr ''2021-03-04T05:06:07.000Z''),
               (''lastSeen'', JStr ''2021-03-05T05:06:07.000Z''),
               (''lastUpdateDate'', JStr ''2021-03-06T05:06:07.000Z'')]"
  have nw: "\<not> truthy (dict_get ?raw ''whitelisted'' (JBool False))"
    by (simp add: dict_get_def)
  have tg: "py_add (dict_get ?raw ''tags'' (JList [])) (dict_get ?raw ''SystemTags'' (JList []))
      = Inr (JList [])"
    by (simp add: dict_get_def)
  have dt: "py_strptime Some (dict_get ?raw ''firstSeen'' JNull) = Inr ''2021-03-04T05:06:07.000Z''"
    "py_strptime Some (dict_get ?raw ''lastSeen'' JNull) = Inr ''2021-03-05T05:06:07.000Z''"
    "py_strptime Some (dict_get ?raw ''lastUpdateDate'' JNull) = Inr ''2021-03-06T05:06:07.000Z''"
    by (simp_all add: dict_get_def)
  have sv: "dict_get ?raw ''severity'' (JStr ''Low'') = JStr ''High''"
    by (simp add: dict_get_def)
  note inst = parse_results_severity [of status_failed dated_response Some ?raw _ _ _
      "JInt 200" "JList []" "''2021-03-04T05:06:07.000Z''" "''2021-03-05T05:06:07.000Z''"
      "''2021-03-06T05:06:07.000Z''"]
  from inst dated_response_facts nw tg dt
  obtain sv' rd where res: "parse_results status_failed Some dated_response = Inr (True, sv', Details rd)"
    by blast
  from parse_results_severity [of status_failed dated_response Some ?raw True sv' "Details rd"]
    dated_response_facts nw res sv
  have "sv' = high" by blast
  with res dated_response_facts(1) show ?thesis by blast
qed

text \<open>
  C10.  A response that has not failed, whose \<open>RawResult\<close> is a dictionary that is not
  whitelisted and lacks one of \<open>firstSeen\<close>, \<open>lastSeen\<close> and \<open>lastUpdateDate\<close>, makes
  \<open>parse_results\<close> raise instead of returning a triple; when the status is there, the tags
  can be added and it is \<open>firstSeen\<close> that is missing, the exception is the \<open>TypeError\<close>
  of \<open>strptime\<close> applied to \<open>None\<close>.
\<close>

theorem parse_results_raises_without_dates:
  assumes "\<not> failed_response response" and "map_of response ''RawResult'' = Some (JDict raw)"
    and "\<not> truthy (dict_get raw ''whitelisted'' (JBool False))"
    and "map_of raw ''firstSeen'' = None \<or> map_of raw ''lastSeen'' = None
           \<or> map_of raw ''lastUpdateDate'' = None"
  shows "isl (parse_results failed_response strptime response)
     \<and> (map_of response ''Status'' = Some status
          \<and> py_add (dict_get raw ''tags'' (JList [])) (dict_get raw ''SystemTags'' (JList [])) = Inr tgs
          \<and> map_of raw ''firstSeen'' = None
        \<longrightarrow> parse_results failed_response strptime response = Inl TypeError)"
proof
  have miss: "py_strptime strptime (dict_get raw k JNull) = Inl TypeError" if "map_of raw k = None" for k
    using that by (simp add: dict_get_def)
  from assms(4) miss
  have "isl (py_strptime strptime (dict_get raw ''firstSeen'' JNull))
      \<or> isl (py_strptime strptime (dict_get raw ''lastSeen'' JNull))
      \<or> isl (py_strptime strptime (dict_get raw ''lastUpdateDate'' JNull))"
    by auto
  with assms(1-3) show "isl (parse_results failed_response strptime response)"
    by (auto simp: parse_results_def getitem_def Let_def split: sum.splits option.splits)
  show "map_of response ''Status'' = Some status
          \<and> py_add (dict_get raw ''tags'' (JList [])) (dict_get raw ''SystemTags'' (JList [])) = Inr tgs
          \<and> map_of raw ''firstSeen'' = None
        \<longrightarrow> parse_results failed_response strptime response = Inl TypeError"
    using assms(1-3) miss [of "''firstSeen''"]
    by (simp add: parse_results_def getitem_def Let_def)
qed

text \<open>The theorem at the hit without dates.\<close>

theorem parse_results_raises_without_dates_witness:
  "\<not> status_failed undated_response
   \<and> map_of undated_response ''RawResult'' = Some (JDict [(''severity'', JStr ''High'')])
   \<and> \<not> truthy (dict_get [(''severity'', JStr ''High'')] ''whitelisted'' (JBool False))
   \<and> map_of [(''severity'', JStr ''High'')] ''firstSeen'' = None
   \<and> parse_results status_failed Some undated_response = Inl TypeError"
proof -
  let ?raw = "[(''severity'', JStr ''High'')]"
  have f: "\<not> status_failed undated_response"
    and r: "map_of undated_response ''RawResult'' = Some (JDict ?raw)"
    and st: "map_of undated_response ''Status'' = Some (JInt 200)"
    by (simp_all add: undated_response_def status_failed_def)
  have nw: "\<not> truthy (dict_get ?raw ''whitelisted'' (JBool False))"
    by (simp add: dict_get_def)
  have tg: "py_add (dict_get ?raw ''tags'' (JList [])) (dict_get ?raw ''SystemTags'' (JList []))
      = Inr (JList [])"
    by (simp add: dict_get_def)
  have ms: "map_of ?raw ''firstSeen'' = None" by simp
  from parse_results_raises_without_dates [where failed_response = status_failed
      and response = undated_response and raw = ?raw and status = "JInt 200" and tgs = "JList []"
      and strptime = Some] f r nw ms st tg
  have "parse_results status_failed Some undated_response = Inl TypeError"
    by blast
  with f r nw ms show ?thesis by blast
qed

end
